theory Spec2Isabelle
  imports Main "HOL-Library.Word"
begin

unbundle bit_operations_syntax

section \<open>JavaScript values and primitives used by the simulator\<close>

text \<open>
  The simulator (\<^verbatim>\<open>src/index.tsx\<close>) works on JavaScript numbers that are always integers:
  cell ages, bits, neighbour counts, pixel offsets. An integer is modelled by \<^typ>\<open>int\<close>.
  Where an expression of the source can produce a value that is not a number
  (\<^verbatim>\<open>undefined\<close> from reading an array out of range, \<^verbatim>\<open>NaN\<close> from \<^verbatim>\<open>Number\<close>) the model uses
  \<^typ>\<open>int option\<close>, \<open>None\<close> standing for that value. Both \<^verbatim>\<open>undefined\<close> and \<^verbatim>\<open>NaN\<close> convert to
  \<open>0\<close> under the 32-bit conversion of the bitwise operators, and both compare false with
  \<^verbatim>\<open>> 0\<close>, so the source never tells them apart.
\<close>

type_synonym jsnum = "int option"

datatype error = TypeError | RangeError

text \<open>
  A quotient \<^verbatim>\<open>Math.ceil(a / b)\<close> of two non-negative integers: finite when \<open>b > 0\<close>,
  \<^verbatim>\<open>Infinity\<close> for \<open>a > 0\<close>, \<open>b = 0\<close> and \<^verbatim>\<open>NaN\<close> for \<open>0 / 0\<close>.
\<close>

datatype quotient = Fin nat | Infinity | NaN

definition ceil_quot :: "nat \<Rightarrow> nat \<Rightarrow> quotient" where
  "ceil_quot a b =
     (if b = 0 then (if a = 0 then NaN else Infinity) else Fin ((a + b - 1) div b))"

text \<open>\<^verbatim>\<open>len > q\<close> for an array length and such a quotient; comparing with \<^verbatim>\<open>NaN\<close> is false.\<close>

fun exceeds :: "nat \<Rightarrow> quotient \<Rightarrow> bool" where
  "exceeds len (Fin b) = (b < len)"
| "exceeds len Infinity = False"
| "exceeds len NaN = False"

text \<open>
  The remainder operator \<^verbatim>\<open>a % b\<close> on integers with \<open>b \<noteq> 0\<close>: the result takes the sign of
  the dividend. Call sites where \<open>b\<close> can be \<open>0\<close> (the result is \<^verbatim>\<open>NaN\<close>) guard it themselves.
\<close>

definition js_rem :: "int \<Rightarrow> int \<Rightarrow> int" where
  "js_rem a b = sgn a * (\<bar>a\<bar> mod \<bar>b\<bar>)"

text \<open>
  Reading \<^verbatim>\<open>arr[i]\<close>: \<^verbatim>\<open>undefined\<close> (\<open>None\<close>) when the index is negative, beyond the end or
  not a number.
\<close>

definition js_index :: "'a list \<Rightarrow> int option \<Rightarrow> 'a option" where
  "js_index xs i =
     (case i of
        None \<Rightarrow> None
      | Some k \<Rightarrow> if 0 \<le> k \<and> k < int (length xs) then Some (xs ! nat k) else None)"

text \<open>
  Writing \<^verbatim>\<open>arr[i] = v\<close> on an array of numbers: in range the element is replaced; beyond
  the end the array grows up to index \<open>i\<close>, the cells in between reading as \<^verbatim>\<open>undefined\<close>.
\<close>

definition js_assign :: "jsnum list \<Rightarrow> nat \<Rightarrow> jsnum \<Rightarrow> jsnum list" where
  "js_assign xs i v =
     (if i < length xs then xs[i := v] else xs @ replicate (i - length xs) None @ [v])"

text \<open>The 32-bit conversion applied by \<^verbatim>\<open><<\<close> and \<^verbatim>\<open>|\<close> to their operands.\<close>

definition to_int32 :: "jsnum \<Rightarrow> 32 word" where
  "to_int32 v = (case v of None \<Rightarrow> 0 | Some n \<Rightarrow> word_of_int n)"

section \<open>Rule bits\<close>

text \<open>
  \<^verbatim>\<open>rule.toString(2)\<close> for a non-negative integer: the binary digits, most significant
  first, \<^verbatim>\<open>"0"\<close> for zero.
\<close>

definition bit_char :: "nat \<Rightarrow> char" where
  "bit_char d = (if d = 0 then CHR ''0'' else CHR ''1'')"

fun toString2 :: "nat \<Rightarrow> string" where
  "toString2 n = (if n < 2 then [bit_char n] else toString2 (n div 2) @ [bit_char (n mod 2)])"

declare toString2.simps [simp del]

text \<open>\<^verbatim>\<open>s.padStart(len, c)\<close> with a one-character filler.\<close>

definition padStart :: "nat \<Rightarrow> char \<Rightarrow> string \<Rightarrow> string" where
  "padStart len c s = replicate (len - length s) c @ s"

text \<open>
  \<^verbatim>\<open>Number\<close> applied to a one-character string: the digit's value, \<^verbatim>\<open>NaN\<close> for a character
  that is no digit (binary strings hold \<^verbatim>\<open>0\<close> and \<^verbatim>\<open>1\<close> only).
\<close>

definition Number_char :: "char \<Rightarrow> jsnum" where
  "Number_char c =
     (let k = (of_char c :: nat)
      in if 48 \<le> k \<and> k \<le> 57 then Some (int k - 48) else None)"

text \<open>
  \<^verbatim>\<open>const getRuleBits = (rule) => rule.toString(2).padStart(8, '0').split('').reverse().map(Number)\<close>
\<close>

definition getRuleBits :: "nat \<Rightarrow> jsnum list" where
  "getRuleBits rule = map Number_char (rev (padStart 8 (CHR ''0'') (toString2 rule)))"

section \<open>Configuration and state\<close>

text \<open>
  \<^verbatim>\<open>type Mode = '1D' | '2D'\<close>, \<^verbatim>\<open>type ColorMode = 'Classic' | 'Age' | 'Density' | 'Cycle'\<close> and
  the fields of \<^verbatim>\<open>interface Config\<close> that the simulation and the colour mapping read
  (\<^verbatim>\<open>speed\<close> and \<^verbatim>\<open>trails\<close> feed only the clock and the renderer).
\<close>

datatype Mode = OneD | TwoD

datatype ColorMode = Classic | Age | Density | Cycle

record Config =
  mode :: Mode
  rule1D :: nat
  birth2D :: "int list"
  survival2D :: "int list"
  resolution :: nat
  hue :: int
  colorMode :: ColorMode

text \<open>The viewport: \<^verbatim>\<open>window.innerWidth\<close> and \<^verbatim>\<open>window.innerHeight\<close>, in pixels.\<close>

record Window =
  innerWidth :: nat
  innerHeight :: nat

text \<open>
  The mutable state of the component: the refs \<^verbatim>\<open>gridRef\<close>, \<^verbatim>\<open>historyRef\<close>, \<^verbatim>\<open>cycleHueRef\<close> and the
  React states \<^verbatim>\<open>generation\<close> and \<^verbatim>\<open>activePreset\<close>. The rows of the 2D grid are always
  distinct arrays (\<^verbatim>\<open>initGrid\<close> and \<^verbatim>\<open>step\<close> build every row afresh), so the grid is a list
  of lists and an update in place of one row is an update of that list element.
\<close>

record State =
  gridRef :: "int list list"
  historyRef :: "jsnum list list"
  generation :: nat
  cycleHueRef :: nat
  activePreset :: "string option"

text \<open>The state of a freshly mounted component, before the first \<^verbatim>\<open>initGrid\<close>.\<close>

definition initialState :: State where
  "initialState =
     \<lparr>gridRef = [], historyRef = [], generation = 0, cycleHueRef = 0,
      activePreset = Some ''GOL''\<rparr>"

section \<open>Exceptions inside array callbacks\<close>

text \<open>
  \<^verbatim>\<open>map\<close> and \<^verbatim>\<open>Array.from\<close> call their callback element by element; an exception thrown
  by one call ends the whole operation. The same holds for the body of a \<^verbatim>\<open>for\<close> loop
  with an accumulator.
\<close>

fun mapE :: "('a \<Rightarrow> error + 'b) \<Rightarrow> 'a list \<Rightarrow> error + 'b list" where
  "mapE f [] = Inr []"
| "mapE f (x # xs) =
     (case f x of
        Inl e \<Rightarrow> Inl e
      | Inr y \<Rightarrow> (case mapE f xs of Inl e \<Rightarrow> Inl e | Inr ys \<Rightarrow> Inr (y # ys)))"

fun foldE :: "('a \<Rightarrow> 'b \<Rightarrow> error + 'b) \<Rightarrow> 'a list \<Rightarrow> 'b \<Rightarrow> error + 'b" where
  "foldE f [] acc = Inr acc"
| "foldE f (x # xs) acc =
     (case f x acc of Inl e \<Rightarrow> Inl e | Inr acc' \<Rightarrow> foldE f xs acc')"

text \<open>
  \<^verbatim>\<open>Array.from({ length: q }, f)\<close>: a length that is \<^verbatim>\<open>NaN\<close> counts as \<open>0\<close>; a length beyond
  \<open>2\<^sup>3\<^sup>2 - 1\<close> (so also \<^verbatim>\<open>Infinity\<close>) is refused with a \<^verbatim>\<open>RangeError\<close>.
\<close>

definition array_from :: "quotient \<Rightarrow> (nat \<Rightarrow> error + 'a) \<Rightarrow> error + 'a list" where
  "array_from q f =
     (case q of
        NaN \<Rightarrow> Inr []
      | Infinity \<Rightarrow> Inl RangeError
      | Fin n \<Rightarrow> if int n < 4294967296 then mapE f [0..<n] else Inl RangeError)"

text \<open>
  \<^verbatim>\<open>new Array(q).fill(v)\<close>: here a length that is not an integer below \<open>2\<^sup>3\<^sup>2\<close> is refused,
  \<^verbatim>\<open>NaN\<close> included.
\<close>

definition new_array_fill :: "quotient \<Rightarrow> 'a \<Rightarrow> error + 'a list" where
  "new_array_fill q v =
     (case q of
        NaN \<Rightarrow> Inl RangeError
      | Infinity \<Rightarrow> Inl RangeError
      | Fin n \<Rightarrow> if int n < 4294967296 then Inr (replicate n v) else Inl RangeError)"

section \<open>Initialisation\<close>

text \<open>
  \<^verbatim>\<open>
  const initGrid = (mode, res) => {
    const cols = Math.ceil(window.innerWidth / res);
    const rows = Math.ceil(window.innerHeight / res);
    if (mode === '2D') {
      gridRef.current = Array.from({ length: rows }, () =>
        Array.from({ length: cols }, () => (Math.random() > 0.85 ? 1 : 0)));
    } else {
      const firstRow = new Array(cols).fill(0);
      firstRow[Math.floor(cols / 2)] = 1;
      historyRef.current = [firstRow];
    }
    setGeneration(0);
    ...
  };\<close>
  The random source is a parameter: \<open>lucky y x\<close> says whether the draw for the cell in row
  \<open>y\<close> and column \<open>x\<close> came out above \<open>0.85\<close>. The index \<^verbatim>\<open>Math.floor(cols / 2)\<close> is only
  computed after \<^verbatim>\<open>new Array(cols)\<close> succeeded, so \<open>cols\<close> is finite there.
\<close>

definition initGrid :: "Mode \<Rightarrow> nat \<Rightarrow> Window \<Rightarrow> (nat \<Rightarrow> nat \<Rightarrow> bool) \<Rightarrow> State \<Rightarrow> error + State" where
  "initGrid m res window lucky s =
     (let cols = ceil_quot (innerWidth window) res;
          rows = ceil_quot (innerHeight window) res
      in if m = TwoD then
           (case array_from rows
                   (\<lambda>y. array_from cols (\<lambda>x. Inr (if lucky y x then 1 else 0))) of
              Inl e \<Rightarrow> Inl e
            | Inr grid \<Rightarrow> Inr (s\<lparr>gridRef := grid, generation := 0\<rparr>))
         else
           (case new_array_fill cols (Some 0) of
              Inl e \<Rightarrow> Inl e
            | Inr firstRow \<Rightarrow>
                Inr (s\<lparr>historyRef := [js_assign firstRow (length firstRow div 2) (Some 1)],
                       generation := 0\<rparr>)))"

section \<open>The simulation step\<close>

text \<open>
  Index arithmetic of the step: \<^verbatim>\<open>a % n\<close> as an array index, \<^verbatim>\<open>NaN\<close> when \<open>n = 0\<close>.
\<close>

definition rem_index :: "int \<Rightarrow> int \<Rightarrow> int option" where
  "rem_index a n = (if n = 0 then None else Some (js_rem a n))"

text \<open>
  \<^verbatim>\<open>gridRef.current[ny][nx] > 0\<close>: reading a cell of a missing row throws; a missing cell
  of an existing row is \<^verbatim>\<open>undefined\<close>, which is not above \<open>0\<close>.
\<close>

definition cell_alive :: "int list list \<Rightarrow> int option \<Rightarrow> int option \<Rightarrow> error + bool" where
  "cell_alive grid ny nx =
     (case js_index grid ny of
        None \<Rightarrow> Inl TypeError
      | Some row \<Rightarrow> Inr (case js_index row nx of None \<Rightarrow> False | Some age \<Rightarrow> 0 < age))"

text \<open>
  The body of the two nested loops for one pair of offsets:
  \<^verbatim>\<open>
  if (i === 0 && j === 0) continue;
  const ny = (y + i + rows) % rows;
  const nx = (x + j + cols) % cols;
  if (gridRef.current[ny][nx] > 0) neighbors++;\<close>
\<close>

definition visit :: "int list list \<Rightarrow> int \<Rightarrow> int \<Rightarrow> int \<Rightarrow> int \<Rightarrow> int \<Rightarrow> int \<Rightarrow> int \<Rightarrow> error + int" where
  "visit grid rows cols y x i j neighbors =
     (if i = 0 \<and> j = 0 then Inr neighbors
      else
        (case cell_alive grid (rem_index (y + i + rows) rows) (rem_index (x + j + cols) cols) of
           Inl e \<Rightarrow> Inl e
         | Inr alive \<Rightarrow> Inr (if alive then neighbors + 1 else neighbors)))"

text \<open>
  \<^verbatim>\<open>let neighbors = 0; for (let i = -1; i <= 1; i++) for (let j = -1; j <= 1; j++) { ... }\<close>
\<close>

definition countNeighbors :: "int list list \<Rightarrow> int \<Rightarrow> int \<Rightarrow> int \<Rightarrow> int \<Rightarrow> error + int" where
  "countNeighbors grid rows cols y x =
     foldE (\<lambda>i. foldE (\<lambda>j. visit grid rows cols y x i j) [- 1, 0, 1]) [- 1, 0, 1] 0"

text \<open>
  \<^verbatim>\<open>
  if (age > 0) {
    return config.survival2D.includes(neighbors) ? Math.min(age + 1, 100) : 0;
  } else {
    return config.birth2D.includes(neighbors) ? 1 : 0;
  }\<close>
\<close>

definition nextAge :: "Config \<Rightarrow> int \<Rightarrow> int \<Rightarrow> int" where
  "nextAge config age neighbors =
     (if 0 < age
      then (if neighbors \<in> set (survival2D config) then min (age + 1) 100 else 0)
      else (if neighbors \<in> set (birth2D config) then 1 else 0))"

text \<open>
  \<^verbatim>\<open>gridRef.current.map((row, y) => row.map((age, x) => { ... }))\<close>: every count reads
  \<^verbatim>\<open>gridRef.current\<close>, which is only replaced after the whole new grid is built.
\<close>

definition nextGrid :: "Config \<Rightarrow> int list list \<Rightarrow> int \<Rightarrow> int \<Rightarrow> error + int list list" where
  "nextGrid config grid rows cols =
     mapE (\<lambda>(y, row).
        mapE (\<lambda>(x, age).
           (case countNeighbors grid rows cols (int y) (int x) of
              Inl e \<Rightarrow> Inl e
            | Inr neighbors \<Rightarrow> Inr (nextAge config age neighbors)))
          (enumerate 0 row))
       (enumerate 0 grid)"

text \<open>
  The 1D transition. \<^verbatim>\<open>(left << 2) | (center << 1) | right\<close> is computed on 32-bit integers
  and read back as a signed number; \<^verbatim>\<open>bits[patternIndex]\<close> and \<^verbatim>\<open>current[k]\<close> are
  \<^verbatim>\<open>undefined\<close> out of range.
\<close>

definition patternIndex :: "jsnum \<Rightarrow> jsnum \<Rightarrow> jsnum \<Rightarrow> int" where
  "patternIndex left center right =
     sint (push_bit 2 (to_int32 left) OR push_bit 1 (to_int32 center) OR to_int32 right)"

definition cellAt :: "jsnum list \<Rightarrow> int option \<Rightarrow> jsnum" where
  "cellAt row k = (case js_index row k of None \<Rightarrow> None | Some v \<Rightarrow> v)"

text \<open>
  \<^verbatim>\<open>
  const cols = current.length;
  const next = current.map((_, i) => {
    const left = current[(i - 1 + cols) % cols];
    const center = current[i];
    const right = current[(i + 1) % cols];
    const patternIndex = (left << 2) | (center << 1) | right;
    return bits[patternIndex];
  });\<close>
\<close>

definition nextRow :: "jsnum list \<Rightarrow> jsnum list \<Rightarrow> jsnum list" where
  "nextRow bits current =
     (let cols = int (length current)
      in map (\<lambda>(i, center).
            (let left = cellAt current (rem_index (int i - 1 + cols) cols);
                 right = cellAt current (rem_index (int i + 1) cols)
             in cellAt bits (Some (patternIndex left center right))))
           (enumerate 0 current))"

text \<open>
  The generation counter is a JavaScript number, a double. \<^verbatim>\<open>g + 1\<close> is exact below
  \<open>2\<^sup>5\<^sup>3 = 9007199254740992\<close>. From there on the sum is rounded to the nearest double, a
  tie going to the even mantissa: between \<open>2\<^sup>5\<^sup>3\<close> and \<open>2\<^sup>5\<^sup>4\<close> the doubles are the even
  integers, \<open>g + 1\<close> lies halfway between \<open>g\<close> and \<open>g + 2\<close>, and the one whose mantissa
  (\<open>g / 2\<close> for \<open>g\<close>) is even is taken; from \<open>2\<^sup>5\<^sup>4\<close> on the nearest double is \<open>g\<close>
  itself. A counter that starts at \<open>0\<close> and is only incremented reaches \<open>2\<^sup>5\<^sup>3\<close> and stays
  there. (The argument is always a double; on other numbers the function is not used.)
\<close>

definition double_succ :: "nat \<Rightarrow> nat" where
  "double_succ g =
     (if int g < 9007199254740992 then g + 1
      else if int g < 18014398509481984 \<and> odd (g div 2) then g + 2
      else g)"

text \<open>
  The end of \<^verbatim>\<open>step\<close>, reached by every path that does not return early:
  \<^verbatim>\<open>setGeneration(g => g + 1); cycleHueRef.current = (cycleHueRef.current + 1) % 360;\<close>
  The cycle hue stays below \<open>360\<close>, so its increment is exact.
\<close>

definition advance :: "State \<Rightarrow> State" where
  "advance s =
     s\<lparr>generation := double_succ (generation s), cycleHueRef := (cycleHueRef s + 1) mod 360\<rparr>"

text \<open>
  \<^verbatim>\<open>
  const step = () => {
    if (config.mode === '2D') {
      const rows = gridRef.current.length;
      if (rows === 0) return;
      const cols = gridRef.current[0].length;
      const nextGrid = ...;
      gridRef.current = nextGrid;
    } else {
      const bits = getRuleBits(config.rule1D);
      const current = historyRef.current[historyRef.current.length - 1];
      const cols = current.length;
      const next = ...;
      historyRef.current.push(next);
      const maxRows = Math.ceil(window.innerHeight / config.resolution);
      if (historyRef.current.length > maxRows) historyRef.current.shift();
    }
    setGeneration(g => g + 1);
    cycleHueRef.current = (cycleHueRef.current + 1) % 360;
  };\<close>
  With an empty history \<^verbatim>\<open>current\<close> is \<^verbatim>\<open>undefined\<close> and \<^verbatim>\<open>current.length\<close> throws a
  \<^verbatim>\<open>TypeError\<close>.
\<close>

definition step :: "Config \<Rightarrow> Window \<Rightarrow> State \<Rightarrow> error + State" where
  "step config window s =
     (if mode config = TwoD then
        (case gridRef s of
           [] \<Rightarrow> Inr s
         | row0 # _ \<Rightarrow>
             (case nextGrid config (gridRef s) (int (length (gridRef s))) (int (length row0)) of
                Inl e \<Rightarrow> Inl e
              | Inr grid' \<Rightarrow> Inr (advance (s\<lparr>gridRef := grid'\<rparr>))))
      else
        (if historyRef s = [] then Inl TypeError
         else
           (let bits = getRuleBits (rule1D config);
                current = last (historyRef s);
                pushed = historyRef s @ [nextRow bits current];
                maxRows = ceil_quot (innerHeight window) (resolution config)
            in Inr (advance
                 (s\<lparr>historyRef := (if exceeds (length pushed) maxRows then tl pushed else pushed)\<rparr>)))))"

text \<open>\<open>k\<close> calls of \<^verbatim>\<open>step\<close> in a row; the first exception ends the run.\<close>

fun steps :: "Config \<Rightarrow> Window \<Rightarrow> nat \<Rightarrow> State \<Rightarrow> error + State" where
  "steps config window 0 s = Inr s"
| "steps config window (Suc k) s =
     (case steps config window k s of Inl e \<Rightarrow> Inl e | Inr s' \<Rightarrow> step config window s')"

section \<open>Toggling a cell\<close>

text \<open>
  \<^verbatim>\<open>Math.floor(p / res)\<close> for a pixel offset \<open>p\<close>: with \<open>res = 0\<close> the quotient is infinite or
  \<^verbatim>\<open>NaN\<close> and indexes nothing.
\<close>

definition pixel_cell :: "int \<Rightarrow> nat \<Rightarrow> int option" where
  "pixel_cell p res = (if res = 0 then None else Some (p div int res))"

text \<open>
  \<^verbatim>\<open>
  const handleCanvasInteraction = (e) => {
    const canvas = canvasRef.current;
    if (!canvas || config.mode === '1D') return;
    ...
    const x = Math.floor((clientX - rect.left) / config.resolution);
    const y = Math.floor((clientY - rect.top) / config.resolution);
    if (gridRef.current[y] && gridRef.current[y][x] !== undefined) {
      const newGrid = [...gridRef.current];
      newGrid[y][x] = newGrid[y][x] > 0 ? 0 : 1;
      gridRef.current = newGrid;
      setActivePreset(null);
    }
  };\<close>
  The arguments \<open>px\<close> and \<open>py\<close> are the offsets \<^verbatim>\<open>clientX - rect.left\<close> and
  \<^verbatim>\<open>clientY - rect.top\<close> in whole pixels (for a positive integer resolution the floor of the
  quotient only depends on the whole part of the offset). The handler is attached to the
  canvas itself, so the canvas exists whenever it runs. The test \<^verbatim>\<open>gridRef.current[y]\<close> holds
  for every row that exists, an empty one included.
\<close>

definition handleCanvasInteraction :: "Config \<Rightarrow> int \<Rightarrow> int \<Rightarrow> State \<Rightarrow> State" where
  "handleCanvasInteraction config px py s =
     (if mode config = OneD then s
      else
        (let x = pixel_cell px (resolution config);
             y = pixel_cell py (resolution config)
         in case js_index (gridRef s) y of
              None \<Rightarrow> s
            | Some row \<Rightarrow>
                (case js_index row x of
                   None \<Rightarrow> s
                 | Some age \<Rightarrow>
                     s\<lparr>gridRef := (gridRef s)[nat (the y) := row[nat (the x) := (if 0 < age then 0 else 1)]],
                       activePreset := None\<rparr>)))"

section \<open>Colour mapping\<close>

text \<open>Printing an integer in a template string.\<close>

fun digits10 :: "nat \<Rightarrow> string" where
  "digits10 n =
     (if n < 10 then [char_of (48 + n)] else digits10 (n div 10) @ [char_of (48 + n mod 10)])"

declare digits10.simps [simp del]

definition toString10 :: "int \<Rightarrow> string" where
  "toString10 i = (if i < 0 then CHR ''-'' # digits10 (nat (- i)) else digits10 (nat i))"

text \<open>
  \<^verbatim>\<open>
  const getCellColor = (age, neighbors = 0) => {
    let h = config.hue; let s = 80; let l = 60;
    switch (config.colorMode) {
      case 'Age':
        h = (config.hue + age * 8) % 360;
        l = age === 1 ? 85 : Math.max(40, 70 - age);
        break;
      case 'Density':
        h = (config.hue - (neighbors * 25)) % 360;
        l = 40 + (neighbors * 5);
        break;
      case 'Cycle':
        h = cycleHueRef.current;
        break;
      default: break;
    }
    return `hsla(${h}, ${s}%, ${l}%, 0.9)`;
  };\<close>
  \<open>cellHsl\<close> is the triple \<open>(h, s, l)\<close> at the \<^verbatim>\<open>return\<close>; \<open>getCellColor\<close> is the string.
\<close>

definition cellHsl :: "Config \<Rightarrow> State \<Rightarrow> int \<Rightarrow> int \<Rightarrow> int \<times> int \<times> int" where
  "cellHsl config s age neighbors =
     (case colorMode config of
        Age \<Rightarrow> (js_rem (hue config + age * 8) 360, 80, if age = 1 then 85 else max 40 (70 - age))
      | Density \<Rightarrow> (js_rem (hue config - neighbors * 25) 360, 80, 40 + neighbors * 5)
      | Cycle \<Rightarrow> (int (cycleHueRef s), 80, 60)
      | Classic \<Rightarrow> (hue config, 80, 60))"

definition getCellColor :: "Config \<Rightarrow> State \<Rightarrow> int \<Rightarrow> int \<Rightarrow> string" where
  "getCellColor config s age neighbors =
     (case cellHsl config s age neighbors of
        (h, sat, l) \<Rightarrow>
          ''hsla('' @ toString10 h @ '', '' @ toString10 sat @ ''%, '' @ toString10 l @ ''%, 0.9)'')"

section \<open>Reference notions used in the statements\<close>

text \<open>
  The state in which the component starts: \<^verbatim>\<open>useState<Config>({ mode: '2D', rule1D: 110,
  birth2D: [3], survival2D: [2, 3], resolution: 8, speed: 15, hue: 180, colorMode: 'Age',
  trails: 0.3 })\<close>.
\<close>

definition defaultConfig :: Config where
  "defaultConfig =
     \<lparr>mode = TwoD, rule1D = 110, birth2D = [3], survival2D = [2, 3], resolution = 8,
      hue = 180, colorMode = Age\<rparr>"

text \<open>A random source none of whose draws exceeds \<open>0.85\<close>: every cell starts dead.\<close>

definition no_luck :: "nat \<Rightarrow> nat \<Rightarrow> bool" where
  "no_luck y x = False"

text \<open>
  The toroidal Moore neighbour count as the specification words it: the eight cells
  around \<open>(y, x)\<close>, orthogonal and diagonal, with the edges of the grid connected to the
  opposite edges; the count is the number of those positions holding a live cell. On a
  grid with fewer than three rows or columns some of the eight positions are the same
  cell; every position counts.
\<close>

definition moore_offsets :: "(int \<times> int) list" where
  "moore_offsets = [(- 1, - 1), (- 1, 0), (- 1, 1), (0, - 1), (0, 1), (1, - 1), (1, 0), (1, 1)]"

definition live_moore_neighbors :: "int list list \<Rightarrow> nat \<Rightarrow> nat \<Rightarrow> int" where
  "live_moore_neighbors grid y x =
     (\<Sum>(dy, dx)\<leftarrow>moore_offsets.
        if 0 < grid ! nat ((int y + dy) mod int (length grid))
                   ! nat ((int x + dx) mod int (length (hd grid)))
        then 1 else 0)"

text \<open>
  Rule 90 as the specification words it: on a ring of cells, the next value of a cell is
  the exclusive or of its left and right neighbours. \<open>sierpinski w n\<close> lists the rows
  \<open>0, \<dots>, n\<close> grown from a single live cell at index \<open>w div 2\<close>.
\<close>

definition xor_row :: "int list \<Rightarrow> int list" where
  "xor_row row =
     map (\<lambda>i. row ! ((i + length row - 1) mod length row) XOR row ! ((i + 1) mod length row))
       [0..<length row]"

definition sierpinski :: "nat \<Rightarrow> nat \<Rightarrow> int list list" where
  "sierpinski w n = map (\<lambda>k. (xor_row ^^ k) ((replicate w 0)[w div 2 := 1])) [0..<Suc n]"

text \<open>
  The generations \<open>0, \<dots>, n\<close> of the 1D automaton of the source, oldest first, whether or
  not the history still holds them.
\<close>

definition generations :: "jsnum list \<Rightarrow> jsnum list \<Rightarrow> nat \<Rightarrow> jsnum list list" where
  "generations bits row0 n = map (\<lambda>k. (nextRow bits ^^ k) row0) [0..<Suc n]"

text \<open>
  The neighbour count that \<^verbatim>\<open>step\<close> computes for the cell in row \<open>y\<close> and column \<open>x\<close>, as a
  number (the loops never throw there, see \<open>countNeighbors_count_at\<close>).
\<close>

definition count_at :: "int list list \<Rightarrow> int \<Rightarrow> nat \<Rightarrow> nat \<Rightarrow> int" where
  "count_at grid cols y x = projr (countNeighbors grid (int (length grid)) cols (int y) (int x))"

text \<open>
  A Game of Life blinker on a \<open>5 \<times> 5\<close> torus: a row of three live cells of age \<open>1\<close>.
\<close>

definition blinker :: State where
  "blinker = initialState\<lparr>gridRef :=
     [[0, 0, 0, 0, 0],
      [0, 0, 0, 0, 0],
      [0, 1, 1, 1, 0],
      [0, 0, 0, 0, 0],
      [0, 0, 0, 0, 0]]\<rparr>"

text \<open>
  The Game of Life block (a \<open>2 \<times> 2\<close> still life) on a \<open>4 \<times> 4\<close> torus, its four cells of age \<open>a\<close>,
  and a random source whose draws make \<^verbatim>\<open>initGrid\<close> produce it.
\<close>

definition block :: "int \<Rightarrow> int list list" where
  "block a = [[0, 0, 0, 0], [0, a, a, 0], [0, a, a, 0], [0, 0, 0, 0]]"

definition block_luck :: "nat \<Rightarrow> nat \<Rightarrow> bool" where
  "block_luck y x = (1 \<le> y \<and> y \<le> 2 \<and> 1 \<le> x \<and> x \<le> 2)"

text \<open>
  The states the 2D simulation can be in: after an initialisation, and from there after
  any step and any pointer interaction, each under any 2D configuration.
\<close>

inductive reachable2D :: "State \<Rightarrow> bool" where
  init: "initGrid TwoD res window lucky s = Inr s' \<Longrightarrow> reachable2D s'"
| step: "reachable2D s \<Longrightarrow> mode config = TwoD \<Longrightarrow> step config window s = Inr s' \<Longrightarrow> reachable2D s'"
| toggle: "reachable2D s \<Longrightarrow> mode config = TwoD \<Longrightarrow>
     reachable2D (handleCanvasInteraction config px py s)"

section \<open>Rule bits: the binary digits of the rule number\<close>

lemma toString2_bound: "n < 2 ^ length (toString2 n)"
proof (induction n rule: toString2.induct)
  case (1 n)
  show ?case
  proof (cases "n < 2")
    case True
    then show ?thesis by (simp add: toString2.simps[of n])
  next
    case False
    with 1 have "n div 2 < 2 ^ length (toString2 (n div 2))" by simp
    then show ?thesis using False by (simp add: toString2.simps[of n]) 
  qed
qed

lemma toString2_length: "n < 2 ^ m \<Longrightarrow> 0 < m \<Longrightarrow> length (toString2 n) \<le> m"
proof (induction n arbitrary: m rule: toString2.induct)
  case (1 n)
  show ?case
  proof (cases "n < 2")
    case True
    then show ?thesis using 1(3) by (simp add: toString2.simps[of n])
  next
    case False
    obtain m' where m: "m = Suc m'" using 1(3) by (cases m) auto
    have "0 < m'" using False 1(2) m by (cases m') auto
    moreover have "n div 2 < 2 ^ m'" using 1(2) m by auto
    ultimately have "length (toString2 (n div 2)) \<le> m'" using 1(1)[OF False] by simp
    then show ?thesis using False m by (simp add: toString2.simps[of n])
  qed
qed

lemma toString2_rev_nth:
  "k < length (toString2 n) \<Longrightarrow> rev (toString2 n) ! k = bit_char (n div 2 ^ k mod 2)"
proof (induction n arbitrary: k rule: toString2.induct)
  case (1 n)
  show ?case
  proof (cases "n < 2")
    case True
    then show ?thesis using 1(2) by (simp add: toString2.simps[of n])
  next
    case False
    show ?thesis
    proof (cases k)
      case 0
      then show ?thesis using False by (simp add: toString2.simps[of n])
    next
      case (Suc k')
      then have "k' < length (toString2 (n div 2))"
        using 1(2) False by (simp add: toString2.simps[of n])
      then have "rev (toString2 (n div 2)) ! k' = bit_char (n div 2 div 2 ^ k' mod 2)"
        using 1(1)[OF False] by simp
      then show ?thesis using False Suc
        by (simp add: toString2.simps[of n] div_mult2_eq)
    qed
  qed
qed

lemma Number_bit_char: "Number_char (bit_char d) = Some (if d = 0 then 0 else 1)"
  by (simp add: Number_char_def bit_char_def)

lemma getRuleBits_nth:
  assumes "n < 256" and "k < 8"
  shows "getRuleBits n ! k = Some (int (n div 2 ^ k mod 2))"
proof -
  let ?s = "toString2 n"
  have len: "length ?s \<le> 8" using toString2_length[of n 8] assms(1) by simp
  show ?thesis
  proof (cases "k < length ?s")
    case True
    then have "getRuleBits n ! k = Number_char (rev ?s ! k)"
      using assms(2) len by (simp add: getRuleBits_def padStart_def nth_append)
    also have "\<dots> = Number_char (bit_char (n div 2 ^ k mod 2))"
      using toString2_rev_nth[OF True] by simp
    finally show ?thesis by (simp add: Number_bit_char)
  next
    case False
    then have "getRuleBits n ! k = Number_char (CHR ''0'')"
      using assms(2) len by (simp add: getRuleBits_def padStart_def nth_append)
    moreover have "n div 2 ^ k = 0"
    proof -
      have "n < 2 ^ length ?s" by (rule toString2_bound)
      also have "\<dots> \<le> 2 ^ k" using False by (simp add: power_increasing)
      finally show ?thesis by simp
    qed
    ultimately show ?thesis by (simp add: Number_char_def)
  qed
qed

lemma getRuleBits_length: "n < 256 \<Longrightarrow> length (getRuleBits n) = 8"
  using toString2_length[of n 8] by (simp add: getRuleBits_def padStart_def)

text \<open>
  Claim C2. For every rule number \<open>n\<close> in \<open>0..255\<close>, \<open>getRuleBits n\<close> has exactly \<open>8\<close>
  elements and its element at index \<open>k\<close> is the \<open>k\<close>-th least significant bit of \<open>n\<close>,
  \<open>(n >> k) & 1\<close>; in particular the tables of rule 30 and rule 110 are
  \<open>[0,1,1,1,1,0,0,0]\<close> and \<open>[0,1,1,1,0,1,1,0]\<close>.
\<close>

theorem getRuleBits_spec:
  "(\<forall>n\<le>255. length (getRuleBits n) = 8 \<and>
      (\<forall>k<8. getRuleBits n ! k = Some (int ((n div 2 ^ k) mod 2)))) \<and>
   getRuleBits 30 = map Some [0, 1, 1, 1, 1, 0, 0, 0] \<and>
   getRuleBits 110 = map Some [0, 1, 1, 1, 0, 1, 1, 0]"
proof -
  have a: "\<forall>n\<le>255. length (getRuleBits n) = 8 \<and>
      (\<forall>k<8. getRuleBits n ! k = Some (int ((n div 2 ^ k) mod 2)))"
    by (simp add: getRuleBits_length getRuleBits_nth)
  have b: "getRuleBits 30 = map Some [0, 1, 1, 1, 1, 0, 0, 0]" by code_simp
  have c: "getRuleBits 110 = map Some [0, 1, 1, 1, 0, 1, 1, 0]" by code_simp
  from a b c show ?thesis by blast
qed

text \<open>
  The statement at rule 90, bit 3.
\<close>

theorem getRuleBits_spec_witness:
  "(90::nat) \<le> 255 \<and> (3::nat) < 8 \<and> length (getRuleBits 90) = 8 \<and> getRuleBits 90 ! 3 = Some 1"
proof -
  have "length (getRuleBits 90) = 8 \<and> getRuleBits 90 ! 3 = Some (int ((90 div 2 ^ 3) mod 2))"
    using getRuleBits_spec by simp
  then show ?thesis by simp
qed

section \<open>The 2D step\<close>

subsection \<open>The step never throws\<close>

lemma mapE_Inr: "(\<And>x. x \<in> set xs \<Longrightarrow> f x = Inr (g x)) \<Longrightarrow> mapE f xs = Inr (map g xs)"
  by (induction xs) auto

lemma js_rem_nonneg: "0 \<le> a \<Longrightarrow> 0 < b \<Longrightarrow> js_rem a b = a mod b"
  by (cases "a = 0") (auto simp: js_rem_def)

lemma rem_index_wrap:
  assumes "0 \<le> y" "y < n" "- 1 \<le> i"
  shows "rem_index (y + i + n) n = Some ((y + i) mod n)"
proof -
  have "0 \<le> y + i + n" "0 < n" using assms by auto
  then show ?thesis by (simp add: rem_index_def js_rem_nonneg)
qed

lemma js_index_Some: "0 \<le> k \<Longrightarrow> k < int (length xs) \<Longrightarrow> js_index xs (Some k) = Some (xs ! nat k)"
  by (simp add: js_index_def)

lemma visit_total:
  assumes "grid \<noteq> []" "0 \<le> y" "y < int (length grid)" "- 1 \<le> i"
  shows "\<exists>b. visit grid (int (length grid)) cols y x i j n = Inr (n + b) \<and> 0 \<le> b \<and> b \<le> 1"
proof -
  let ?rows = "int (length grid)"
  have r: "rem_index (y + i + ?rows) ?rows = Some ((y + i) mod ?rows)"
    using assms by (intro rem_index_wrap) auto
  have "0 \<le> (y + i) mod ?rows" "(y + i) mod ?rows < ?rows" using assms by auto
  then have "js_index grid (Some ((y + i) mod ?rows)) = Some (grid ! nat ((y + i) mod ?rows))"
    by (rule js_index_Some)
  then show ?thesis
    by (auto simp: visit_def cell_alive_def r split: option.splits)
qed

lemma foldE_visit_total:
  assumes "grid \<noteq> []" "0 \<le> y" "y < int (length grid)" "- 1 \<le> i"
  shows "\<exists>b. foldE (\<lambda>j. visit grid (int (length grid)) cols y x i j) js n = Inr (n + b)
     \<and> 0 \<le> b \<and> b \<le> int (length js)"
proof (induction js arbitrary: n)
  case Nil
  then show ?case by simp
next
  case (Cons j js)
  obtain b where b: "visit grid (int (length grid)) cols y x i j n = Inr (n + b)" "0 \<le> b" "b \<le> 1"
    using visit_total[OF assms] by blast
  obtain c where c: "foldE (\<lambda>j. visit grid (int (length grid)) cols y x i j) js (n + b) = Inr (n + b + c)"
     "0 \<le> c" "c \<le> int (length js)"
    using Cons.IH by blast
  show ?case using b c by (intro exI[of _ "b + c"]) (simp add: add.assoc)
qed

lemma countNeighbors_total:
  assumes "grid \<noteq> []" "0 \<le> y" "y < int (length grid)"
  shows "\<exists>n. countNeighbors grid (int (length grid)) cols y x = Inr n \<and> 0 \<le> n \<and> n \<le> 9"
proof -
  let ?f = "\<lambda>i. foldE (\<lambda>j. visit grid (int (length grid)) cols y x i j) [- 1, 0, 1]"
  obtain a where a: "?f (- 1) 0 = Inr (0 + a)" "0 \<le> a" "a \<le> 3"
    using foldE_visit_total[OF assms, of "- 1" cols x "[- 1, 0, 1]" 0] by auto
  obtain b where b: "?f 0 a = Inr (a + b)" "0 \<le> b" "b \<le> 3"
    using foldE_visit_total[OF assms, of 0 cols x "[- 1, 0, 1]" a] by auto
  obtain c where c: "?f 1 (a + b) = Inr (a + b + c)" "0 \<le> c" "c \<le> 3"
    using foldE_visit_total[OF assms, of 1 cols x "[- 1, 0, 1]" "a + b"] by auto
  have "countNeighbors grid (int (length grid)) cols y x = Inr (a + b + c)"
    unfolding countNeighbors_def using a b c by simp
  then show ?thesis using a b c by auto
qed

lemma countNeighbors_count_at:
  assumes "y < length grid"
  shows "countNeighbors grid (int (length grid)) cols (int y) (int x) = Inr (count_at grid cols y x)"
proof -
  have "grid \<noteq> []" using assms by auto
  then obtain n where "countNeighbors grid (int (length grid)) cols (int y) (int x) = Inr n"
    using countNeighbors_total[of grid "int y" cols "int x"] assms by auto
  then show ?thesis by (simp add: count_at_def)
qed

lemma nextGrid_Inr:
  "nextGrid config grid (int (length grid)) cols =
     Inr (map (\<lambda>(y, row). map (\<lambda>(x, age). nextAge config age (count_at grid cols y x)) (enumerate 0 row))
           (enumerate 0 grid))"
  unfolding nextGrid_def
proof (rule mapE_Inr)
  fix p assume p: "p \<in> set (enumerate 0 grid)"
  obtain y row where yr: "p = (y, row)" by (cases p)
  have y: "y < length grid" using p yr by (simp add: in_set_enumerate_eq)
  have "mapE (\<lambda>(x, age). case countNeighbors grid (int (length grid)) cols (int y) (int x) of
            Inl e \<Rightarrow> Inl e | Inr neighbors \<Rightarrow> Inr (nextAge config age neighbors)) (enumerate 0 row)
      = Inr (map (\<lambda>(x, age). nextAge config age (count_at grid cols y x)) (enumerate 0 row))"
    by (rule mapE_Inr) (auto simp: countNeighbors_count_at[OF y])
  then show "(case p of (y, row) \<Rightarrow> mapE (\<lambda>(x, age). case countNeighbors grid (int (length grid)) cols (int y) (int x) of
            Inl e \<Rightarrow> Inl e | Inr neighbors \<Rightarrow> Inr (nextAge config age neighbors)) (enumerate 0 row))
     = Inr (case p of (y, row) \<Rightarrow> map (\<lambda>(x, age). nextAge config age (count_at grid cols y x)) (enumerate 0 row))"
    by (simp add: yr)
qed

lemma nextGrid_shape:
  assumes "nextGrid config grid (int (length grid)) cols = Inr grid'"
  shows "length grid' = length grid" and "y < length grid \<Longrightarrow> length (grid' ! y) = length (grid ! y)"
  using assms by (auto simp: nextGrid_Inr nth_enumerate_eq)

lemma nextGrid_cell:
  assumes "nextGrid config grid (int (length grid)) cols = Inr grid'"
    and "y < length grid" and "x < length (grid ! y)"
  shows "grid' ! y ! x = nextAge config (grid ! y ! x) (count_at grid cols y x)"
  using assms by (auto simp: nextGrid_Inr nth_enumerate_eq)

lemma nextAge_range: "0 \<le> nextAge config age n \<and> nextAge config age n \<le> 100"
  by (simp add: nextAge_def)

lemma nextGrid_range:
  assumes "nextGrid config grid (int (length grid)) cols = Inr grid'"
    and "row \<in> set grid'" and "a \<in> set row"
  shows "0 \<le> a \<and> a \<le> 100"
proof -
  obtain y where y: "y < length grid'" "row = grid' ! y" using assms(2) by (auto simp: in_set_conv_nth)
  obtain x where x: "x < length row" "a = row ! x" using assms(3) by (auto simp: in_set_conv_nth)
  have yy: "y < length grid" using y nextGrid_shape(1)[OF assms(1)] by simp
  have xx: "x < length (grid ! y)" using x y nextGrid_shape(2)[OF assms(1) yy] by simp
  show ?thesis using nextGrid_cell[OF assms(1) yy xx] x y nextAge_range by simp
qed

lemma step_2D_empty: "mode config = TwoD \<Longrightarrow> gridRef s = [] \<Longrightarrow> step config window s = Inr s"
  by (simp add: step_def)

lemma step_2D_nonempty:
  assumes "mode config = TwoD" "gridRef s \<noteq> []"
  shows "\<exists>grid'. nextGrid config (gridRef s) (int (length (gridRef s))) (int (length (hd (gridRef s)))) = Inr grid'
      \<and> step config window s = Inr (advance (s\<lparr>gridRef := grid'\<rparr>))"
proof -
  obtain row0 rest where g: "gridRef s = row0 # rest" using assms(2) by (cases "gridRef s") auto
  obtain grid' where n: "nextGrid config (gridRef s) (int (length (gridRef s))) (int (length row0)) = Inr grid'"
    using nextGrid_Inr by blast
  have "step config window s = Inr (advance (s\<lparr>gridRef := grid'\<rparr>))"
    unfolding step_def using assms(1) n by (simp only: g list.case sum.case simp_thms if_True)
  then show ?thesis using n g by auto
qed

lemma step_2D_total: "mode config = TwoD \<Longrightarrow> \<exists>s'. step config window s = Inr s'"
  using step_2D_empty step_2D_nonempty by (cases "gridRef s = []") blast+

lemma step_2D_shape:
  assumes "mode config = TwoD" "step config window s = Inr s'"
  shows "length (gridRef s') = length (gridRef s) \<and>
     (\<forall>y<length (gridRef s). length (gridRef s' ! y) = length (gridRef s ! y))"
proof (cases "gridRef s = []")
  case True
  then show ?thesis using assms step_2D_empty[of config s window] by simp
next
  case False
  then obtain grid' where g: "nextGrid config (gridRef s) (int (length (gridRef s)))
        (int (length (hd (gridRef s)))) = Inr grid'"
    and st: "step config window s = Inr (advance (s\<lparr>gridRef := grid'\<rparr>))"
    using step_2D_nonempty[OF assms(1), of s window] by blast
  have "gridRef s' = grid'" using st assms(2) by (auto simp: advance_def)
  then show ?thesis using nextGrid_shape[OF g] by simp
qed

lemma step_2D_cell:
  assumes "mode config = TwoD" "step config window s = Inr s'"
    and "y < length (gridRef s)" "x < length (gridRef s ! y)"
  shows "\<exists>n. gridRef s' ! y ! x = nextAge config (gridRef s ! y ! x) n"
proof -
  have ne: "gridRef s \<noteq> []" using assms(3) by auto
  then obtain grid' where g: "nextGrid config (gridRef s) (int (length (gridRef s)))
        (int (length (hd (gridRef s)))) = Inr grid'"
    and st: "step config window s = Inr (advance (s\<lparr>gridRef := grid'\<rparr>))"
    using step_2D_nonempty[OF assms(1), of s window] by blast
  have "gridRef s' = grid'" using st assms(2) by (auto simp: advance_def)
  then show ?thesis using nextGrid_cell[OF g assms(3,4)] by blast
qed

lemma step_2D_range:
  assumes "mode config = TwoD" "step config window s = Inr s'"
    and "\<forall>row\<in>set (gridRef s). \<forall>a\<in>set row. 0 \<le> a \<and> a \<le> 100"
  shows "\<forall>row\<in>set (gridRef s'). \<forall>a\<in>set row. 0 \<le> a \<and> a \<le> 100"
proof (cases "gridRef s = []")
  case True
  then show ?thesis using assms step_2D_empty[of config s window] by simp
next
  case False
  then obtain grid' where g: "nextGrid config (gridRef s) (int (length (gridRef s)))
        (int (length (hd (gridRef s)))) = Inr grid'"
    and st: "step config window s = Inr (advance (s\<lparr>gridRef := grid'\<rparr>))"
    using step_2D_nonempty[OF assms(1), of s window] by blast
  have "gridRef s' = grid'" using st assms(2) by (auto simp: advance_def)
  then show ?thesis using nextGrid_range[OF g] by blast
qed

lemma steps_2D_shape:
  assumes "mode config = TwoD"
  shows "steps config window n s = Inr sn \<Longrightarrow>
     length (gridRef sn) = length (gridRef s) \<and>
     (\<forall>y<length (gridRef s). length (gridRef sn ! y) = length (gridRef s ! y))"
proof (induction n arbitrary: sn)
  case 0
  then show ?case by simp
next
  case (Suc n)
  then obtain sm where sm: "steps config window n s = Inr sm" "step config window sm = Inr sn"
    by (auto split: sum.splits)
  show ?case using Suc.IH[OF sm(1)] step_2D_shape[OF assms sm(2)] by simp
qed

subsection \<open>The birth and survival rule over the Moore neighbourhood\<close>

lemma visit_center: "visit grid rows cols y x 0 0 n = Inr n"
  by (simp add: visit_def)

lemma visit_exact:
  assumes rect: "\<forall>row\<in>set grid. length row = c"
    and y: "0 \<le> y" "y < int (length grid)" and x: "0 \<le> x" "x < int c"
    and ij: "- 1 \<le> i" "- 1 \<le> j" "i \<noteq> 0 \<or> j \<noteq> 0"
  shows "visit grid (int (length grid)) (int c) y x i j n =
     Inr (n + (if 0 < grid ! nat ((y + i) mod int (length grid)) ! nat ((x + j) mod int c) then 1 else 0))"
proof -
  let ?rows = "int (length grid)"
  let ?ny = "(y + i) mod ?rows" and ?nx = "(x + j) mod int c"
  have ry: "rem_index (y + i + ?rows) ?rows = Some ?ny"
    using y ij by (intro rem_index_wrap) auto
  have rx: "rem_index (x + j + int c) (int c) = Some ?nx"
    using x ij by (intro rem_index_wrap) auto
  have pos: "0 < ?rows" "0 < int c" using y x by linarith+
  have ny: "0 \<le> ?ny" "?ny < ?rows" using pos by simp_all
  have nx: "0 \<le> ?nx" "?nx < int c" using pos by simp_all
  have row: "js_index grid (Some ?ny) = Some (grid ! nat ?ny)"
    using ny by (rule js_index_Some)
  have "grid ! nat ?ny \<in> set grid" using ny by (intro nth_mem) auto
  then have len: "length (grid ! nat ?ny) = c" using rect by blast
  have cell: "js_index (grid ! nat ?ny) (Some ?nx) = Some (grid ! nat ?ny ! nat ?nx)"
    using nx len by (intro js_index_Some) auto
  show ?thesis using ij(3)
    by (auto simp: visit_def cell_alive_def ry rx row cell)
qed

lemma count_at_moore:
  assumes rect: "\<forall>row\<in>set grid. length row = c" and y: "y < length grid" and x: "x < c"
  shows "count_at grid (int c) y x = live_moore_neighbors grid y x"
proof -
  have ne: "grid \<noteq> []" using y by auto
  then have "hd grid \<in> set grid" by simp
  then have hd: "length (hd grid) = c" using rect by blast
  note v = visit_exact[OF rect, of "int y" "int x"]
  have yy: "0 \<le> int y" "int y < int (length grid)" "0 \<le> int x" "int x < int c"
    using y x by auto
  have "countNeighbors grid (int (length grid)) (int c) (int y) (int x) =
     Inr (live_moore_neighbors grid y x)"
    unfolding countNeighbors_def live_moore_neighbors_def moore_offsets_def hd
    by (simp add: visit_center v[OF yy])
  then show ?thesis by (simp add: count_at_def)
qed

text \<open>
  Claim C1. On a non-empty rectangular grid one call of \<^verbatim>\<open>step\<close> in 2D mode succeeds and
  returns a grid of the same shape in which every cell is determined by the grid before
  the step alone: with \<open>n\<close> the number of live toroidal Moore neighbours in the old grid,
  the cell is alive afterwards iff it was dead and \<open>n\<close> is in the birth set, or it was
  alive and \<open>n\<close> is in the survival set; a survivor's age is \<open>min (age + 1) 100\<close>, a
  newborn's age is \<open>1\<close>, and a cell that is not alive has age \<open>0\<close>. No assumption on the
  birth and survival sets is needed.
\<close>

theorem step_2D_rule:
  assumes "mode config = TwoD" and "gridRef s \<noteq> []"
    and "\<forall>row\<in>set (gridRef s). length row = cols"
  shows "\<exists>s'. step config window s = Inr s' \<and>
     length (gridRef s') = length (gridRef s) \<and>
     (\<forall>y<length (gridRef s). length (gridRef s' ! y) = cols \<and>
        (\<forall>x<cols.
           (let age = gridRef s ! y ! x;
                n = live_moore_neighbors (gridRef s) y x;
                age' = gridRef s' ! y ! x
            in (0 < age' \<longleftrightarrow>
                  (\<not> 0 < age \<and> n \<in> set (birth2D config)) \<or>
                  (0 < age \<and> n \<in> set (survival2D config))) \<and>
               (0 < age \<and> 0 < age' \<longrightarrow> age' = min (age + 1) 100) \<and>
               (\<not> 0 < age \<and> 0 < age' \<longrightarrow> age' = 1) \<and>
               (\<not> 0 < age' \<longrightarrow> age' = 0))))"
proof -
  let ?g = "gridRef s"
  have hd: "length (hd ?g) = cols" using assms(2,3) by simp
  obtain grid' where n: "nextGrid config ?g (int (length ?g)) (int cols) = Inr grid'"
    and st: "step config window s = Inr (advance (s\<lparr>gridRef := grid'\<rparr>))"
    using step_2D_nonempty[OF assms(1,2), of window] hd by auto
  let ?s' = "advance (s\<lparr>gridRef := grid'\<rparr>)"
  have g': "gridRef ?s' = grid'" by (simp add: advance_def)
  have len: "length grid' = length ?g" by (rule nextGrid_shape(1)[OF n])
  have cells: "length (grid' ! y) = cols \<and>
        (\<forall>x<cols.
           (let age = ?g ! y ! x;
                n = live_moore_neighbors ?g y x;
                age' = grid' ! y ! x
            in (0 < age' \<longleftrightarrow>
                  (\<not> 0 < age \<and> n \<in> set (birth2D config)) \<or>
                  (0 < age \<and> n \<in> set (survival2D config))) \<and>
               (0 < age \<and> 0 < age' \<longrightarrow> age' = min (age + 1) 100) \<and>
               (\<not> 0 < age \<and> 0 < age' \<longrightarrow> age' = 1) \<and>
               (\<not> 0 < age' \<longrightarrow> age' = 0)))" if y: "y < length ?g" for y
  proof -
    have ly: "length (?g ! y) = cols" using assms(3) y by simp
    have l': "length (grid' ! y) = cols" using nextGrid_shape(2)[OF n y] ly by simp
    have "grid' ! y ! x = nextAge config (?g ! y ! x) (live_moore_neighbors ?g y x)"
      if x: "x < cols" for x
      using nextGrid_cell[OF n y, of x] x ly count_at_moore[OF assms(3) y x] by simp
    then show ?thesis using l' by (auto simp: Let_def nextAge_def)
  qed
  show ?thesis
    by (rule exI[of _ ?s']) (use st g' len cells in simp)
qed

text \<open>
  The statement on the blinker under the rules of the Game of Life: the cell below the
  middle is born, the right end dies, the middle survives with age \<open>2\<close>.
\<close>

theorem step_2D_rule_witness:
  "mode defaultConfig = TwoD \<and> gridRef blinker \<noteq> [] \<and>
   list_all (\<lambda>row. length row = 5) (gridRef blinker) \<and>
   (\<exists>s'. step defaultConfig \<lparr>innerWidth = 40, innerHeight = 40\<rparr> blinker = Inr s' \<and>
      gridRef s' ! 3 ! 2 = 1 \<and> gridRef s' ! 2 ! 3 = 0 \<and> gridRef s' ! 2 ! 2 = 2)"
proof -
  let ?w = "\<lparr>innerWidth = 40, innerHeight = 40\<rparr>"
  have m: "mode defaultConfig = TwoD" by (simp add: defaultConfig_def)
  have ne: "gridRef blinker \<noteq> []" by (simp add: blinker_def)
  have rect: "\<forall>row\<in>set (gridRef blinker). length row = 5" by (simp add: blinker_def)
  from step_2D_rule[OF m ne rect, of ?w]
  obtain s' where s': "step defaultConfig ?w blinker = Inr s'"
    and cells: "\<forall>y<length (gridRef blinker). length (gridRef s' ! y) = 5 \<and>
        (\<forall>x<5.
           (let age = gridRef blinker ! y ! x;
                n = live_moore_neighbors (gridRef blinker) y x;
                age' = gridRef s' ! y ! x
            in (0 < age' \<longleftrightarrow>
                  (\<not> 0 < age \<and> n \<in> set (birth2D defaultConfig)) \<or>
                  (0 < age \<and> n \<in> set (survival2D defaultConfig))) \<and>
               (0 < age \<and> 0 < age' \<longrightarrow> age' = min (age + 1) 100) \<and>
               (\<not> 0 < age \<and> 0 < age' \<longrightarrow> age' = 1) \<and>
               (\<not> 0 < age' \<longrightarrow> age' = 0)))"
    by blast
  have n: "live_moore_neighbors (gridRef blinker) 3 2 = 3"
    "live_moore_neighbors (gridRef blinker) 2 3 = 1"
    "live_moore_neighbors (gridRef blinker) 2 2 = 2"
    by (simp_all add: live_moore_neighbors_def moore_offsets_def blinker_def)
  have a: "gridRef blinker ! 3 ! 2 = 0" "gridRef blinker ! 2 ! 3 = 1" "gridRef blinker ! 2 ! 2 = 1"
    by (simp_all add: blinker_def)
  have l: "(3::nat) < length (gridRef blinker)" "(2::nat) < length (gridRef blinker)"
    by (simp_all add: blinker_def)
  have "gridRef s' ! 3 ! 2 = 1"
    using cells[rule_format, OF l(1), THEN conjunct2, rule_format, of 2]
    by (simp add: Let_def n a defaultConfig_def)
  moreover have "gridRef s' ! 2 ! 3 = 0"
    using cells[rule_format, OF l(2), THEN conjunct2, rule_format, of 3]
    by (simp add: Let_def n a defaultConfig_def)
  moreover have "gridRef s' ! 2 ! 2 = 2"
    using cells[rule_format, OF l(2), THEN conjunct2, rule_format, of 2]
    by (simp add: Let_def n a defaultConfig_def)
  ultimately show ?thesis using m ne s' by (auto simp: blinker_def)
qed

section \<open>The 1D step\<close>

subsection \<open>The bounded history\<close>

lemma step_1D:
  assumes "mode config = OneD" "historyRef s \<noteq> []"
  shows "step config window s =
     Inr (advance (s\<lparr>historyRef :=
        (if exceeds (Suc (length (historyRef s))) (ceil_quot (innerHeight window) (resolution config))
         then tl (historyRef s @ [nextRow (getRuleBits (rule1D config)) (last (historyRef s))])
         else historyRef s @ [nextRow (getRuleBits (rule1D config)) (last (historyRef s))])\<rparr>))"
  using assms by (simp add: step_def Let_def)

lemma length_generations: "length (generations bits row0 n) = Suc n"
  by (simp add: generations_def)

lemma generations_Suc:
  "generations bits row0 (Suc n) = generations bits row0 n @ [nextRow bits (last (generations bits row0 n))]"
  by (simp add: generations_def)

lemma steps_history:
  assumes m: "mode config = OneD"
    and B: "ceil_quot (innerHeight window) (resolution config) = Fin B"
    and h: "historyRef s = [row0]"
  shows "\<exists>s'. steps config window n s = Inr s' \<and>
     historyRef s' = drop (Suc n - max 1 B) (generations (getRuleBits (rule1D config)) row0 n)"
proof (induction n)
  case 0
  then show ?case using h by (simp add: generations_def)
next
  case (Suc n)
  let ?G = "generations (getRuleBits (rule1D config)) row0"
  let ?d = "Suc n - max 1 B"
  obtain s' where s': "steps config window n s = Inr s'"
    "historyRef s' = drop ?d (?G n)"
    using Suc.IH by blast
  have d: "?d < length (?G n)" by (simp add: length_generations)
  then have ne: "historyRef s' \<noteq> []" using s'(2) by simp
  have last: "last (historyRef s') = last (?G n)" using d s'(2) by simp
  have pushed: "historyRef s' @ [nextRow (getRuleBits (rule1D config)) (last (historyRef s'))]
      = drop ?d (?G (Suc n))"
    using d by (simp add: s'(2) generations_Suc last)
  have len: "length (historyRef s') = Suc n - ?d" by (simp add: s'(2) length_generations)
  let ?s'' = "advance (s'\<lparr>historyRef :=
        (if exceeds (Suc (length (historyRef s'))) (Fin B) then tl (drop ?d (?G (Suc n)))
         else drop ?d (?G (Suc n)))\<rparr>)"
  have st: "step config window s' = Inr ?s''"
    using step_1D[OF m ne, of window] by (simp only: pushed B)
  have hist: "historyRef ?s'' = drop (Suc (Suc n) - max 1 B) (?G (Suc n))"
  proof (cases "B < Suc (length (historyRef s'))")
    case True
    then have e: "Suc (Suc n) - max 1 B = Suc ?d" using len by (cases "B = 0") auto
    have "tl (drop ?d (?G (Suc n))) = drop (Suc ?d) (?G (Suc n))"
      by (simp only: tl_drop drop_Suc)
    then show ?thesis using True by (simp only: e advance_def exceeds.simps if_True) simp
  next
    case False
    then have "?d = 0" "Suc (Suc n) - max 1 B = 0" using len by auto
    then show ?thesis using False by (simp add: advance_def)
  qed
  show ?case using s'(1) st hist by (intro exI[of _ ?s'']) (simp del: exceeds.simps)
qed

lemma initGrid_1D:
  assumes "initGrid OneD res window lucky s = Inr s0"
  shows "\<exists>c. ceil_quot (innerWidth window) res = Fin c \<and>
     s0 = s\<lparr>historyRef := [js_assign (replicate c (Some 0)) (c div 2) (Some 1)], generation := 0\<rparr>"
  using assms
  by (auto simp: initGrid_def new_array_fill_def Let_def split: if_splits quotient.splits)

text \<open>
  Claim C6, as amended. After an initialisation in 1D mode with a bound
  \<open>B = ceil (innerHeight / resolution)\<close> of at least \<open>1\<close>, for every number \<open>n\<close> of steps the
  history has \<open>min (n + 1) B\<close> rows, so never more than \<open>B\<close>, and these are the most recent
  generations in chronological order, oldest first; once the bound is reached, a further
  step drops the oldest row and appends the new one.
\<close>

theorem history_window:
  assumes init: "initGrid OneD res window lucky s = Inr s0"
    and cfg: "mode config = OneD" "resolution config = res"
    and B: "ceil_quot (innerHeight window) res = Fin B" "1 \<le> B"
  shows "\<exists>sn. steps config window n s0 = Inr sn \<and>
     length (historyRef sn) \<le> B \<and>
     length (historyRef sn) = min (Suc n) B \<and>
     historyRef sn =
       drop (Suc n - B) (generations (getRuleBits (rule1D config)) (hd (historyRef s0)) n) \<and>
     (B \<le> Suc n \<longrightarrow>
        (\<exists>sn'. step config window sn = Inr sn' \<and>
           historyRef sn' =
             tl (historyRef sn) @
               [nextRow (getRuleBits (rule1D config)) (last (historyRef sn))]))"
proof -
  obtain row0 where h0: "historyRef s0 = [row0]" using initGrid_1D[OF init] by auto
  have B': "ceil_quot (innerHeight window) (resolution config) = Fin B" using B cfg by simp
  have M: "max 1 B = B" using B(2) by simp
  obtain sn where sn: "steps config window n s0 = Inr sn"
    "historyRef sn = drop (Suc n - B) (generations (getRuleBits (rule1D config)) row0 n)"
    using steps_history[OF cfg(1) B' h0, of n] M by auto
  have len: "length (historyRef sn) = min (Suc n) B"
    by (simp add: sn(2) length_generations)
  then have ne: "historyRef sn \<noteq> []" using B(2) by auto
  have evict: "\<exists>sn'. step config window sn = Inr sn' \<and>
           historyRef sn' =
             tl (historyRef sn) @ [nextRow (getRuleBits (rule1D config)) (last (historyRef sn))]"
    if "B \<le> Suc n"
  proof -
    have "exceeds (Suc (length (historyRef sn))) (Fin B)" using that len by simp
    then show ?thesis using step_1D[OF cfg(1) ne, of window] B' ne
      by (simp add: advance_def)
  qed
  show ?thesis using sn len evict h0 by (intro exI[of _ sn]) simp
qed

text \<open>
  Claim C6 as stated fails when the viewport has height \<open>0\<close>: the bound is \<open>0\<close>, while the
  history holds one row right after the initialisation.
\<close>

theorem history_window_counterexample:
  "initGrid OneD 8 \<lparr>innerWidth = 120, innerHeight = 0\<rparr> no_luck initialState =
     Inr (initialState\<lparr>historyRef := [map Some [0, 0, 0, 0, 0, 0, 0, 1, 0, 0, 0, 0, 0, 0, 0]]\<rparr>) \<and>
   ceil_quot (innerHeight \<lparr>innerWidth = 120, innerHeight = 0\<rparr>) 8 = Fin 0 \<and>
   length (historyRef
     (initialState\<lparr>historyRef := [map Some [0, 0, 0, 0, 0, 0, 0, 1, 0, 0, 0, 0, 0, 0, 0]]\<rparr>)) = 1"
  by code_simp

text \<open>
  The amended statement for a viewport of height \<open>24\<close> at resolution \<open>8\<close>: the bound is \<open>3\<close>,
  and after \<open>5\<close> steps the history holds the generations \<open>3\<close>, \<open>4\<close> and \<open>5\<close>.
\<close>

theorem history_window_witness:
  "initGrid OneD 8 \<lparr>innerWidth = 120, innerHeight = 24\<rparr> no_luck initialState =
     Inr (initialState\<lparr>historyRef := [map Some [0, 0, 0, 0, 0, 0, 0, 1, 0, 0, 0, 0, 0, 0, 0]]\<rparr>) \<and>
   mode (defaultConfig\<lparr>mode := OneD\<rparr>) = OneD \<and>
   resolution (defaultConfig\<lparr>mode := OneD\<rparr>) = 8 \<and>
   ceil_quot (innerHeight \<lparr>innerWidth = 120, innerHeight = 24\<rparr>) 8 = Fin 3 \<and>
   (1::nat) \<le> 3 \<and>
   (\<exists>sn. steps (defaultConfig\<lparr>mode := OneD\<rparr>) \<lparr>innerWidth = 120, innerHeight = 24\<rparr> 5
            (initialState\<lparr>historyRef := [map Some [0, 0, 0, 0, 0, 0, 0, 1, 0, 0, 0, 0, 0, 0, 0]]\<rparr>) = Inr sn \<and>
      length (historyRef sn) = 3 \<and>
      historyRef sn =
        drop 3 (generations (getRuleBits 110) (map Some [0, 0, 0, 0, 0, 0, 0, 1, 0, 0, 0, 0, 0, 0, 0]) 5))"
proof -
  let ?w = "\<lparr>innerWidth = 120, innerHeight = 24\<rparr>"
  let ?c = "defaultConfig\<lparr>mode := OneD\<rparr>"
  let ?s0 = "initialState\<lparr>historyRef := [map Some [0, 0, 0, 0, 0, 0, 0, 1, 0, 0, 0, 0, 0, 0, 0]]\<rparr>"
  have init: "initGrid OneD 8 ?w no_luck initialState = Inr ?s0" by code_simp
  have c: "mode ?c = OneD" "resolution ?c = 8" "rule1D ?c = 110" by (simp_all add: defaultConfig_def)
  have B: "ceil_quot (innerHeight ?w) 8 = Fin 3" "(1::nat) \<le> 3" by (simp_all add: ceil_quot_def)
  from history_window[OF init c(1,2) B, of 5]
  show ?thesis using init c B by (auto simp del: upt_Suc)
qed

subsection \<open>Rule 90 grows the Sierpinski triangle\<close>

lemma getRuleBits_90: "getRuleBits 90 = map Some [0, 1, 0, 1, 1, 0, 1, 0]"
  by code_simp

lemma rule90_cell:
  assumes "l = 0 \<or> l = 1" "c = 0 \<or> c = 1" "r = 0 \<or> r = 1"
  shows "cellAt (getRuleBits 90) (Some (patternIndex (Some l) (Some c) (Some r))) = Some (l XOR r)"
  using assms
  by (auto simp: getRuleBits_90 patternIndex_def to_int32_def cellAt_def js_index_def)

lemma cellAt_map_Some:
  "0 \<le> k \<Longrightarrow> k < int (length row) \<Longrightarrow> cellAt (map Some row) (Some k) = Some (row ! nat k)"
  by (simp add: cellAt_def js_index_def)

lemma nextRow_rule90:
  assumes bin: "set row \<subseteq> {0, 1}"
  shows "nextRow (getRuleBits 90) (map Some row) = map Some (xor_row row)"
proof (rule nth_equalityI)
  show "length (nextRow (getRuleBits 90) (map Some row)) = length (map Some (xor_row row))"
    by (simp add: nextRow_def xor_row_def Let_def)
next
  fix i assume "i < length (nextRow (getRuleBits 90) (map Some row))"
  then have i: "i < length row" by (simp add: nextRow_def Let_def)
  let ?n = "length row"
  have pos: "0 < int ?n" using i by auto
  have li: "rem_index (int i - 1 + int ?n) (int ?n) = Some (int ((i + ?n - 1) mod ?n))"
  proof -
    have e: "int i - 1 + int ?n = int (i + ?n - 1)" using i by auto
    have "js_rem (int (i + ?n - 1)) (int ?n) = int (i + ?n - 1) mod int ?n"
      using pos by (intro js_rem_nonneg) auto
    then show ?thesis using pos by (simp only: e rem_index_def zmod_int) simp
  qed
  have ri: "rem_index (int i + 1) (int ?n) = Some (int ((i + 1) mod ?n))"
  proof -
    have e: "int i + 1 = int (i + 1)" by simp
    have "js_rem (int (i + 1)) (int ?n) = int (i + 1) mod int ?n"
      using pos by (intro js_rem_nonneg) auto
    then show ?thesis using pos by (simp only: e rem_index_def zmod_int) simp
  qed
  have npos: "0 < ?n" using i by auto
  have lm: "(i + ?n - 1) mod ?n < ?n" and rm: "(i + 1) mod ?n < ?n" using npos by simp_all
  have left: "cellAt (map Some row) (rem_index (int i - 1 + int ?n) (int ?n)) = Some (row ! ((i + ?n - 1) mod ?n))"
    using lm by (simp add: li cellAt_map_Some)
  have right: "cellAt (map Some row) (rem_index (int i + 1) (int ?n)) = Some (row ! ((i + 1) mod ?n))"
    using rm by (simp add: ri cellAt_map_Some)
  have b: "\<And>k. k < ?n \<Longrightarrow> row ! k = 0 \<or> row ! k = 1" using bin nth_mem by fastforce
  have "nextRow (getRuleBits 90) (map Some row) ! i =
      cellAt (getRuleBits 90) (Some (patternIndex (Some (row ! ((i + ?n - 1) mod ?n))) (Some (row ! i))
         (Some (row ! ((i + 1) mod ?n)))))"
    using i by (simp add: nextRow_def Let_def nth_enumerate_eq left right)
  also have "\<dots> = Some (row ! ((i + ?n - 1) mod ?n) XOR row ! ((i + 1) mod ?n))"
    using b[OF lm] b[OF i] b[OF rm] by (rule rule90_cell)
  also have "\<dots> = map Some (xor_row row) ! i" using i by (simp add: xor_row_def)
  finally show "nextRow (getRuleBits 90) (map Some row) ! i = map Some (xor_row row) ! i" .
qed

lemma xor_row_binary: "set row \<subseteq> {0, 1} \<Longrightarrow> set (xor_row row) \<subseteq> {0, 1}"
proof
  fix v assume bin: "set row \<subseteq> {0, 1}" and "v \<in> set (xor_row row)"
  then obtain i where i: "i < length row"
    and v: "v = row ! ((i + length row - 1) mod length row) XOR row ! ((i + 1) mod length row)"
    by (auto simp: xor_row_def)
  have "0 < length row" using i by auto
  then have "(i + length row - 1) mod length row < length row" "(i + 1) mod length row < length row"
    by simp_all
  then have "row ! ((i + length row - 1) mod length row) \<in> {0, 1}" "row ! ((i + 1) mod length row) \<in> {0, 1}"
    using bin nth_mem by blast+
  then show "v \<in> {0, 1}" using v by auto
qed

lemma funpow_rule90:
  assumes "set row \<subseteq> {0, 1}"
  shows "(nextRow (getRuleBits 90) ^^ k) (map Some row) = map Some ((xor_row ^^ k) row)
     \<and> set ((xor_row ^^ k) row) \<subseteq> {0, 1}"
  by (induction k) (use assms in \<open>auto simp: nextRow_rule90 dest: xor_row_binary\<close>)

lemma generations_rule90:
  assumes "set row \<subseteq> {0, 1}"
  shows "generations (getRuleBits 90) (map Some row) n = map (map Some) (map (\<lambda>k. (xor_row ^^ k) row) [0..<Suc n])"
  unfolding generations_def using funpow_rule90[OF assms] by simp

lemma firstRow_center:
  "0 < c \<Longrightarrow> js_assign (replicate c (Some 0)) (c div 2) (Some 1) = map Some ((replicate c 0)[c div 2 := 1])"
  by (simp add: js_assign_def map_update)

lemma xor_rows:
  "xor_row [0, 0, 0, 0, 0, 0, 0, 1, 0, 0, 0, 0, 0, 0, 0] = [0, 0, 0, 0, 0, 0, 1, 0, 1, 0, 0, 0, 0, 0, 0]"
  "xor_row [0, 0, 0, 0, 0, 0, 1, 0, 1, 0, 0, 0, 0, 0, 0] = [0, 0, 0, 0, 0, 1, 0, 0, 0, 1, 0, 0, 0, 0, 0]"
  "xor_row [0, 0, 0, 0, 0, 1, 0, 0, 0, 1, 0, 0, 0, 0, 0] = [0, 0, 0, 0, 1, 0, 1, 0, 1, 0, 1, 0, 0, 0, 0]"
  "xor_row [0, 0, 0, 0, 1, 0, 1, 0, 1, 0, 1, 0, 0, 0, 0] = [0, 0, 0, 1, 0, 0, 0, 0, 0, 0, 0, 1, 0, 0, 0]"
  "xor_row [0, 0, 0, 1, 0, 0, 0, 0, 0, 0, 0, 1, 0, 0, 0] = [0, 0, 1, 0, 1, 0, 0, 0, 0, 0, 1, 0, 1, 0, 0]"
  "xor_row [0, 0, 1, 0, 1, 0, 0, 0, 0, 0, 1, 0, 1, 0, 0] = [0, 1, 0, 0, 0, 1, 0, 0, 0, 1, 0, 0, 0, 1, 0]"
  "xor_row [0, 1, 0, 0, 0, 1, 0, 0, 0, 1, 0, 0, 0, 1, 0] = [1, 0, 1, 0, 1, 0, 1, 0, 1, 0, 1, 0, 1, 0, 1]"
  by code_simp+

lemma center_15: "(replicate 15 0)[15 div 2 := 1] = [0, 0, 0, 0, 0, 0, 0, 1, 0, 0, 0, 0, 0, 0, 0::int]"
  by code_simp

lemma upt_8: "[0..<Suc 7] = [0, 1, 2, 3, 4, 5, 6, 7]"
  by code_simp

lemma sierpinski_15_7:
  "sierpinski 15 7 =
     [[0, 0, 0, 0, 0, 0, 0, 1, 0, 0, 0, 0, 0, 0, 0],
      [0, 0, 0, 0, 0, 0, 1, 0, 1, 0, 0, 0, 0, 0, 0],
      [0, 0, 0, 0, 0, 1, 0, 0, 0, 1, 0, 0, 0, 0, 0],
      [0, 0, 0, 0, 1, 0, 1, 0, 1, 0, 1, 0, 0, 0, 0],
      [0, 0, 0, 1, 0, 0, 0, 0, 0, 0, 0, 1, 0, 0, 0],
      [0, 0, 1, 0, 1, 0, 0, 0, 0, 0, 1, 0, 1, 0, 0],
      [0, 1, 0, 0, 0, 1, 0, 0, 0, 1, 0, 0, 0, 1, 0],
      [1, 0, 1, 0, 1, 0, 1, 0, 1, 0, 1, 0, 1, 0, 1]]"
  unfolding sierpinski_def upt_8 center_15
  by (simp add: eval_nat_numeral xor_rows del: upt_Suc)

text \<open>
  Claim C3, as amended. With rule 90 and a viewport that gives \<open>15\<close> columns, the
  initialisation in 1D mode yields a single row that is dead except for cell \<open>7\<close>. After
  \<open>7\<close> steps the history is the Sierpinski pattern \<open>sierpinski 15 7\<close>, all \<open>8\<close> rows of
  it, provided the bound \<open>B = ceil (innerHeight / resolution)\<close> on the history is at least
  \<open>8\<close>; under a smaller bound the history holds the last \<open>max 1 B\<close> rows of the pattern.
  In the pattern every row is the exclusive or of the left and right neighbours in the
  row before, on the ring of \<open>15\<close> cells.
\<close>

theorem rule90_sierpinski:
  assumes w: "ceil_quot (innerWidth window) res = Fin 15"
    and B: "ceil_quot (innerHeight window) res = Fin B"
    and cfg: "mode config = OneD" "rule1D config = 90" "resolution config = res"
  shows "\<exists>s0 s7. initGrid OneD res window lucky s = Inr s0 \<and>
     historyRef s0 = [map Some ((replicate 15 0)[15 div 2 := 1])] \<and>
     steps config window 7 s0 = Inr s7 \<and>
     (8 \<le> B \<longrightarrow> historyRef s7 = map (map Some) (sierpinski 15 7)) \<and>
     historyRef s7 = map (map Some) (drop (8 - max 1 B) (sierpinski 15 7)) \<and>
     sierpinski 15 7 =
       [[0, 0, 0, 0, 0, 0, 0, 1, 0, 0, 0, 0, 0, 0, 0],
        [0, 0, 0, 0, 0, 0, 1, 0, 1, 0, 0, 0, 0, 0, 0],
        [0, 0, 0, 0, 0, 1, 0, 0, 0, 1, 0, 0, 0, 0, 0],
        [0, 0, 0, 0, 1, 0, 1, 0, 1, 0, 1, 0, 0, 0, 0],
        [0, 0, 0, 1, 0, 0, 0, 0, 0, 0, 0, 1, 0, 0, 0],
        [0, 0, 1, 0, 1, 0, 0, 0, 0, 0, 1, 0, 1, 0, 0],
        [0, 1, 0, 0, 0, 1, 0, 0, 0, 1, 0, 0, 0, 1, 0],
        [1, 0, 1, 0, 1, 0, 1, 0, 1, 0, 1, 0, 1, 0, 1]]"
proof -
  let ?row0 = "(replicate 15 0)[15 div 2 := 1] :: int list"
  let ?s0 = "s\<lparr>historyRef := [map Some ?row0], generation := 0\<rparr>"
  have fill: "new_array_fill (Fin 15) (Some (0::int)) = Inr (replicate 15 (Some 0))"
    by (simp add: new_array_fill_def)
  have "js_assign (replicate 15 (Some 0)) (15 div 2) (Some 1) = map Some ?row0"
    by (rule firstRow_center) simp
  then have init: "initGrid OneD res window lucky s = Inr ?s0"
    by (simp add: initGrid_def w fill)
  have h0: "historyRef ?s0 = [map Some ?row0]" by simp
  have B': "ceil_quot (innerHeight window) (resolution config) = Fin B" using B cfg by simp
  have bin: "set ?row0 \<subseteq> {0, 1}"
    by (rule subset_trans[OF set_update_subset_insert]) auto
  obtain s7 where s7: "steps config window 7 ?s0 = Inr s7"
    "historyRef s7 = drop (Suc 7 - max 1 B) (generations (getRuleBits (rule1D config)) (map Some ?row0) 7)"
    using steps_history[OF cfg(1) B' h0, of 7] by blast
  have "generations (getRuleBits (rule1D config)) (map Some ?row0) 7 = map (map Some) (sierpinski 15 7)"
    unfolding cfg(2) generations_rule90[OF bin] sierpinski_def ..
  then have hist: "historyRef s7 = map (map Some) (drop (8 - max 1 B) (sierpinski 15 7))"
    using s7(2) by (simp add: drop_map)
  have full: "8 \<le> B \<longrightarrow> historyRef s7 = map (map Some) (sierpinski 15 7)"
    using hist by simp
  show ?thesis
    using init h0 s7(1) full hist sierpinski_15_7 by blast
qed

text \<open>
  Claim C3 as stated fails for a viewport of \<open>120 \<times> 8\<close> pixels at resolution \<open>8\<close>: there are
  \<open>15\<close> columns, but the bound on the history is \<open>1\<close>, and after \<open>7\<close> steps the history
  holds the last row alone, not the triangle.
\<close>

theorem rule90_sierpinski_counterexample:
  "ceil_quot (innerWidth \<lparr>innerWidth = 120, innerHeight = 8\<rparr>) 8 = Fin 15 \<and>
   ceil_quot (innerHeight \<lparr>innerWidth = 120, innerHeight = 8\<rparr>) 8 = Fin 1 \<and>
   initGrid OneD 8 \<lparr>innerWidth = 120, innerHeight = 8\<rparr> no_luck initialState =
     Inr (initialState\<lparr>historyRef := [map Some [0, 0, 0, 0, 0, 0, 0, 1, 0, 0, 0, 0, 0, 0, 0]]\<rparr>) \<and>
   steps (defaultConfig\<lparr>mode := OneD, rule1D := 90\<rparr>) \<lparr>innerWidth = 120, innerHeight = 8\<rparr> 7
       (initialState\<lparr>historyRef := [map Some [0, 0, 0, 0, 0, 0, 0, 1, 0, 0, 0, 0, 0, 0, 0]]\<rparr>) =
     Inr (initialState\<lparr>historyRef := [map Some [1, 0, 1, 0, 1, 0, 1, 0, 1, 0, 1, 0, 1, 0, 1]],
            generation := 7, cycleHueRef := 7\<rparr>)"
  by code_simp

text \<open>
  The amended statement for a viewport of \<open>120 \<times> 64\<close> pixels at resolution \<open>8\<close>: \<open>15\<close>
  columns, a bound of \<open>8\<close>, and the history holds all \<open>8\<close> rows; and for a viewport of
  \<open>120 \<times> 24\<close> pixels, where the bound is \<open>3\<close> and the last three rows remain.
\<close>

theorem rule90_sierpinski_witness:
  "ceil_quot (innerWidth \<lparr>innerWidth = 120, innerHeight = 64\<rparr>) 8 = Fin 15 \<and>
   ceil_quot (innerHeight \<lparr>innerWidth = 120, innerHeight = 64\<rparr>) 8 = Fin 8 \<and>
   mode (defaultConfig\<lparr>mode := OneD, rule1D := 90\<rparr>) = OneD \<and>
   rule1D (defaultConfig\<lparr>mode := OneD, rule1D := 90\<rparr>) = 90 \<and>
   resolution (defaultConfig\<lparr>mode := OneD, rule1D := 90\<rparr>) = 8 \<and>
   (8::nat) \<le> 8 \<and>
   (\<exists>s0 s7. initGrid OneD 8 \<lparr>innerWidth = 120, innerHeight = 64\<rparr> no_luck initialState = Inr s0 \<and>
      steps (defaultConfig\<lparr>mode := OneD, rule1D := 90\<rparr>) \<lparr>innerWidth = 120, innerHeight = 64\<rparr> 7 s0 = Inr s7 \<and>
      historyRef s7 = map (map Some)
       [[0, 0, 0, 0, 0, 0, 0, 1, 0, 0, 0, 0, 0, 0, 0],
        [0, 0, 0, 0, 0, 0, 1, 0, 1, 0, 0, 0, 0, 0, 0],
        [0, 0, 0, 0, 0, 1, 0, 0, 0, 1, 0, 0, 0, 0, 0],
        [0, 0, 0, 0, 1, 0, 1, 0, 1, 0, 1, 0, 0, 0, 0],
        [0, 0, 0, 1, 0, 0, 0, 0, 0, 0, 0, 1, 0, 0, 0],
        [0, 0, 1, 0, 1, 0, 0, 0, 0, 0, 1, 0, 1, 0, 0],
        [0, 1, 0, 0, 0, 1, 0, 0, 0, 1, 0, 0, 0, 1, 0],
        [1, 0, 1, 0, 1, 0, 1, 0, 1, 0, 1, 0, 1, 0, 1]]) \<and>
   ceil_quot (innerHeight \<lparr>innerWidth = 120, innerHeight = 24\<rparr>) 8 = Fin 3 \<and>
   (\<exists>s0 s7. initGrid OneD 8 \<lparr>innerWidth = 120, innerHeight = 24\<rparr> no_luck initialState = Inr s0 \<and>
      steps (defaultConfig\<lparr>mode := OneD, rule1D := 90\<rparr>) \<lparr>innerWidth = 120, innerHeight = 24\<rparr> 7 s0 = Inr s7 \<and>
      historyRef s7 = map (map Some)
       [[0, 0, 1, 0, 1, 0, 0, 0, 0, 0, 1, 0, 1, 0, 0],
        [0, 1, 0, 0, 0, 1, 0, 0, 0, 1, 0, 0, 0, 1, 0],
        [1, 0, 1, 0, 1, 0, 1, 0, 1, 0, 1, 0, 1, 0, 1]])"
proof -
  let ?w = "\<lparr>innerWidth = 120, innerHeight = 64\<rparr>" and ?v = "\<lparr>innerWidth = 120, innerHeight = 24\<rparr>"
  let ?c = "defaultConfig\<lparr>mode := OneD, rule1D := 90\<rparr>"
  have w: "ceil_quot (innerWidth ?w) 8 = Fin 15" "ceil_quot (innerWidth ?v) 8 = Fin 15"
    by (simp_all add: ceil_quot_def)
  have B: "ceil_quot (innerHeight ?w) 8 = Fin 8" by (simp add: ceil_quot_def)
  have B3: "ceil_quot (innerHeight ?v) 8 = Fin 3" by (simp add: ceil_quot_def)
  have c: "mode ?c = OneD" "rule1D ?c = 90" "resolution ?c = 8" by (simp_all add: defaultConfig_def)
  from rule90_sierpinski[OF w(1) B c, of no_luck initialState]
  obtain s0 s7 where a: "initGrid OneD 8 ?w no_luck initialState = Inr s0"
    "steps ?c ?w 7 s0 = Inr s7"
    "(8::nat) \<le> 8 \<longrightarrow> historyRef s7 = map (map Some) (sierpinski 15 7)"
    "sierpinski 15 7 =
       [[0, 0, 0, 0, 0, 0, 0, 1, 0, 0, 0, 0, 0, 0, 0],
        [0, 0, 0, 0, 0, 0, 1, 0, 1, 0, 0, 0, 0, 0, 0],
        [0, 0, 0, 0, 0, 1, 0, 0, 0, 1, 0, 0, 0, 0, 0],
        [0, 0, 0, 0, 1, 0, 1, 0, 1, 0, 1, 0, 0, 0, 0],
        [0, 0, 0, 1, 0, 0, 0, 0, 0, 0, 0, 1, 0, 0, 0],
        [0, 0, 1, 0, 1, 0, 0, 0, 0, 0, 1, 0, 1, 0, 0],
        [0, 1, 0, 0, 0, 1, 0, 0, 0, 1, 0, 0, 0, 1, 0],
        [1, 0, 1, 0, 1, 0, 1, 0, 1, 0, 1, 0, 1, 0, 1]]"
    by blast
  from rule90_sierpinski[OF w(2) B3 c, of no_luck initialState]
  obtain t0 t7 where b: "initGrid OneD 8 ?v no_luck initialState = Inr t0"
    "steps ?c ?v 7 t0 = Inr t7"
    "historyRef t7 = map (map Some) (drop (8 - max 1 3) (sierpinski 15 7))"
    by blast
  have full: "\<exists>s0 s7. initGrid OneD 8 ?w no_luck initialState = Inr s0 \<and>
      steps ?c ?w 7 s0 = Inr s7 \<and>
      historyRef s7 = map (map Some)
       [[0, 0, 0, 0, 0, 0, 0, 1, 0, 0, 0, 0, 0, 0, 0],
        [0, 0, 0, 0, 0, 0, 1, 0, 1, 0, 0, 0, 0, 0, 0],
        [0, 0, 0, 0, 0, 1, 0, 0, 0, 1, 0, 0, 0, 0, 0],
        [0, 0, 0, 0, 1, 0, 1, 0, 1, 0, 1, 0, 0, 0, 0],
        [0, 0, 0, 1, 0, 0, 0, 0, 0, 0, 0, 1, 0, 0, 0],
        [0, 0, 1, 0, 1, 0, 0, 0, 0, 0, 1, 0, 1, 0, 0],
        [0, 1, 0, 0, 0, 1, 0, 0, 0, 1, 0, 0, 0, 1, 0],
        [1, 0, 1, 0, 1, 0, 1, 0, 1, 0, 1, 0, 1, 0, 1]]"
    using a by (intro exI[of _ s0] exI[of _ s7]) simp
  have last3: "\<exists>s0 s7. initGrid OneD 8 ?v no_luck initialState = Inr s0 \<and>
      steps ?c ?v 7 s0 = Inr s7 \<and>
      historyRef s7 = map (map Some)
       [[0, 0, 1, 0, 1, 0, 0, 0, 0, 0, 1, 0, 1, 0, 0],
        [0, 1, 0, 0, 0, 1, 0, 0, 0, 1, 0, 0, 0, 1, 0],
        [1, 0, 1, 0, 1, 0, 1, 0, 1, 0, 1, 0, 1, 0, 1]]"
    using b a(4) by (intro exI[of _ t0] exI[of _ t7]) simp
  show ?thesis using w(1) B B3 c full last3 by simp
qed

section \<open>The generation counter and the step on an empty state\<close>

lemma initGrid_generation: "initGrid m res window lucky s = Inr s0 \<Longrightarrow> generation s0 = 0"
  by (cases m) (auto simp: initGrid_def Let_def split: sum.splits)

lemma double_succ_below: "g \<le> 9007199254740992 \<Longrightarrow> double_succ g = min (g + 1) 9007199254740992"
proof (cases "g = 9007199254740992")
  case True
  then show ?thesis by (simp add: double_succ_def)
next
  case False
  assume "g \<le> 9007199254740992"
  with False have "g < 9007199254740992" by simp
  then show ?thesis by (simp add: double_succ_def)
qed

lemma step_nonempty:
  assumes "mode config = TwoD \<and> gridRef s \<noteq> [] \<or> mode config = OneD \<and> historyRef s \<noteq> []"
  shows "\<exists>s'. step config window s = Inr s' \<and> generation s' = double_succ (generation s) \<and>
     (mode config = TwoD \<and> gridRef s' \<noteq> [] \<or> mode config = OneD \<and> historyRef s' \<noteq> [])"
  using assms
proof
  assume a: "mode config = TwoD \<and> gridRef s \<noteq> []"
  then obtain grid' where g: "nextGrid config (gridRef s) (int (length (gridRef s)))
        (int (length (hd (gridRef s)))) = Inr grid'"
    and st: "step config window s = Inr (advance (s\<lparr>gridRef := grid'\<rparr>))"
    using step_2D_nonempty[of config s window] by blast
  have "grid' \<noteq> []" using nextGrid_shape(1)[OF g] a by auto
  then show ?thesis using st a
    by (intro exI[of _ "advance (s\<lparr>gridRef := grid'\<rparr>)"]) (simp add: advance_def)
next
  assume a: "mode config = OneD \<and> historyRef s \<noteq> []"
  then show ?thesis using step_1D[of config s window]
    by (auto simp: advance_def)
qed

lemma steps_nonempty:
  assumes "mode config = TwoD \<and> gridRef s \<noteq> [] \<or> mode config = OneD \<and> historyRef s \<noteq> []"
  shows "\<exists>sK. steps config window K s = Inr sK \<and>
     (mode config = TwoD \<and> gridRef sK \<noteq> [] \<or> mode config = OneD \<and> historyRef sK \<noteq> []) \<and>
     (generation s \<le> 9007199254740992 \<longrightarrow>
        generation sK = min (generation s + K) 9007199254740992)"
proof (induction K)
  case 0
  then show ?case using assms by simp
next
  case (Suc K)
  then obtain sK where sK: "steps config window K s = Inr sK"
    "mode config = TwoD \<and> gridRef sK \<noteq> [] \<or> mode config = OneD \<and> historyRef sK \<noteq> []"
    "generation s \<le> 9007199254740992 \<longrightarrow> generation sK = min (generation s + K) 9007199254740992"
    by blast
  obtain s' where s': "step config window sK = Inr s'"
    "generation s' = double_succ (generation sK)"
    "mode config = TwoD \<and> gridRef s' \<noteq> [] \<or> mode config = OneD \<and> historyRef s' \<noteq> []"
    using step_nonempty[OF sK(2), of window] by blast
  have "generation s' = min (generation s + Suc K) 9007199254740992"
    if le: "generation s \<le> 9007199254740992"
  proof -
    have k: "generation sK = min (generation s + K) 9007199254740992" using sK(3) le by simp
    then have "generation sK \<le> 9007199254740992" by simp
    then have "generation s' = min (generation sK + 1) 9007199254740992"
      using s'(2) by (simp only: double_succ_below)
    then show ?thesis using k by simp
  qed
  then show ?case using sK(1) s'(1,3) by simp
qed

text \<open>
  Claim C5, as amended. The generation counter is \<open>0\<close> right after every initialisation
  that succeeds. After an initialisation in 1D mode, or in 2D mode with a grid of at least
  one row, \<open>K\<close> steps in that mode succeed and leave the counter at \<open>K\<close> as long as
  \<open>K \<le> 2\<^sup>5\<^sup>3\<close> (from there on the counter, a double, stays at \<open>2\<^sup>5\<^sup>3\<close>); each step on a
  non-empty grid (2D) or a non-empty history (1D) adds exactly \<open>1\<close> to a counter below
  \<open>2\<^sup>5\<^sup>3\<close>. A step in 2D mode on a grid without rows returns early and changes nothing,
  the counter included.
\<close>

theorem generation_counter:
  "(initGrid m res window lucky s = Inr s0 \<longrightarrow> generation s0 = 0) \<and>
   (initGrid m res window lucky s = Inr s0 \<and> mode config = m \<and> (m = TwoD \<longrightarrow> gridRef s0 \<noteq> []) \<longrightarrow>
      (\<exists>sK. steps config window K s0 = Inr sK \<and>
         generation sK = min K 9007199254740992 \<and>
         (K \<le> 9007199254740992 \<longrightarrow> generation sK = K))) \<and>
   ((mode config = TwoD \<and> gridRef s \<noteq> [] \<or> mode config = OneD \<and> historyRef s \<noteq> []) \<and>
    generation s < 9007199254740992 \<longrightarrow>
      (\<exists>s'. step config window s = Inr s' \<and> generation s' = generation s + 1)) \<and>
   (mode config = TwoD \<and> gridRef s = [] \<longrightarrow> step config window s = Inr s)"
proof (intro conjI impI)
  assume "initGrid m res window lucky s = Inr s0"
  then show "generation s0 = 0" by (rule initGrid_generation)
next
  assume a: "initGrid m res window lucky s = Inr s0 \<and> mode config = m \<and> (m = TwoD \<longrightarrow> gridRef s0 \<noteq> [])"
  then have g0: "generation s0 = 0" using initGrid_generation by blast
  have "mode config = TwoD \<and> gridRef s0 \<noteq> [] \<or> mode config = OneD \<and> historyRef s0 \<noteq> []"
  proof (cases m)
    case OneD
    then show ?thesis using a initGrid_1D[of res window lucky s s0] by auto
  next
    case TwoD
    then show ?thesis using a by simp
  qed
  from steps_nonempty[OF this, of window K] g0
  obtain sK where "steps config window K s0 = Inr sK" "generation sK = min K 9007199254740992"
    by auto
  then show "\<exists>sK. steps config window K s0 = Inr sK \<and>
         generation sK = min K 9007199254740992 \<and>
         (K \<le> 9007199254740992 \<longrightarrow> generation sK = K)"
    by auto
next
  assume a: "(mode config = TwoD \<and> gridRef s \<noteq> [] \<or> mode config = OneD \<and> historyRef s \<noteq> []) \<and>
    generation s < 9007199254740992"
  then obtain s' where "step config window s = Inr s'" "generation s' = double_succ (generation s)"
    using step_nonempty[of config s window] by blast
  then show "\<exists>s'. step config window s = Inr s' \<and> generation s' = generation s + 1"
    using a by (auto simp: double_succ_def)
next
  assume "mode config = TwoD \<and> gridRef s = []"
  then show "step config window s = Inr s" by (simp add: step_2D_empty)
qed

text \<open>
  Claim C5 as stated fails for a viewport of height \<open>0\<close> in 2D mode: the initialisation
  yields a grid without rows, and after one call of \<^verbatim>\<open>step\<close> the counter is still \<open>0\<close>.
\<close>

theorem generation_counter_counterexample:
  "initGrid TwoD 8 \<lparr>innerWidth = 800, innerHeight = 0\<rparr> no_luck initialState = Inr initialState \<and>
   steps defaultConfig \<lparr>innerWidth = 800, innerHeight = 0\<rparr> 1 initialState = Inr initialState \<and>
   generation initialState = 0"
  by code_simp

text \<open>
  The amended statement after an initialisation in 1D mode, after one in 2D mode with a
  \<open>2 \<times> 3\<close> grid, and on the grid without rows.
\<close>

theorem generation_counter_witness:
  "initGrid OneD 8 \<lparr>innerWidth = 120, innerHeight = 64\<rparr> no_luck initialState =
     Inr (initialState\<lparr>historyRef := [map Some [0, 0, 0, 0, 0, 0, 0, 1, 0, 0, 0, 0, 0, 0, 0]]\<rparr>) \<and>
   generation (initialState\<lparr>historyRef := [map Some [0, 0, 0, 0, 0, 0, 0, 1, 0, 0, 0, 0, 0, 0, 0]]\<rparr>) = 0 \<and>
   (\<exists>sK. steps (defaultConfig\<lparr>mode := OneD\<rparr>) \<lparr>innerWidth = 120, innerHeight = 64\<rparr> 3
       (initialState\<lparr>historyRef := [map Some [0, 0, 0, 0, 0, 0, 0, 1, 0, 0, 0, 0, 0, 0, 0]]\<rparr>) = Inr sK \<and>
       generation sK = 3) \<and>
   initGrid TwoD 32 \<lparr>innerWidth = 96, innerHeight = 64\<rparr> no_luck initialState =
     Inr (initialState\<lparr>gridRef := [[0, 0, 0], [0, 0, 0]]\<rparr>) \<and>
   (\<exists>sK. steps defaultConfig \<lparr>innerWidth = 96, innerHeight = 64\<rparr> 3
       (initialState\<lparr>gridRef := [[0, 0, 0], [0, 0, 0]]\<rparr>) = Inr sK \<and> generation sK = 3) \<and>
   (\<exists>s'. step defaultConfig \<lparr>innerWidth = 96, innerHeight = 64\<rparr>
       (initialState\<lparr>gridRef := [[0, 0, 0], [0, 0, 0]]\<rparr>) = Inr s' \<and> generation s' = 1) \<and>
   gridRef initialState = [] \<and>
   step defaultConfig \<lparr>innerWidth = 96, innerHeight = 64\<rparr> initialState = Inr initialState"
proof -
  let ?w1 = "\<lparr>innerWidth = 120, innerHeight = 64\<rparr>" and ?w2 = "\<lparr>innerWidth = 96, innerHeight = 64\<rparr>"
  let ?c1 = "defaultConfig\<lparr>mode := OneD\<rparr>"
  let ?s1 = "initialState\<lparr>historyRef := [map Some [0, 0, 0, 0, 0, 0, 0, 1, 0, 0, 0, 0, 0, 0, 0]]\<rparr>"
  let ?s2 = "initialState\<lparr>gridRef := [[0, 0, 0], [0, 0, 0]]\<rparr>"
  have i1: "initGrid OneD 8 ?w1 no_luck initialState = Inr ?s1" by code_simp
  have i2: "initGrid TwoD 32 ?w2 no_luck initialState = Inr ?s2" by code_simp
  have m: "mode ?c1 = OneD" "mode defaultConfig = TwoD" by (simp_all add: defaultConfig_def)
  have g: "gridRef ?s2 \<noteq> []" "gridRef initialState = []" by (simp_all add: initialState_def)
  have a: "generation ?s1 = 0"
    and b: "\<exists>sK. steps ?c1 ?w1 3 ?s1 = Inr sK \<and> generation sK = 3"
    using generation_counter[of OneD 8 ?w1 no_luck initialState ?s1 ?c1 3] i1 m by simp_all
  have c: "\<exists>sK. steps defaultConfig ?w2 3 ?s2 = Inr sK \<and> generation sK = 3"
    using generation_counter[of TwoD 32 ?w2 no_luck initialState ?s2 defaultConfig 3] i2 m g by simp
  have d: "\<exists>s'. step defaultConfig ?w2 ?s2 = Inr s' \<and> generation s' = 1"
    using generation_counter[of TwoD 32 ?w2 no_luck ?s2 ?s2 defaultConfig 1] m g
    by (simp add: initialState_def)
  have e: "step defaultConfig ?w2 initialState = Inr initialState"
    using generation_counter[of TwoD 32 ?w2 no_luck initialState initialState defaultConfig 1] m g
    by simp
  show ?thesis using i1 i2 a b c d e g by blast
qed




section \<open>Toggling a cell\<close>

lemma toggle_1D: "mode config = OneD \<Longrightarrow> handleCanvasInteraction config px py s = s"
  by (simp add: handleCanvasInteraction_def)

lemma toggle_hit:
  assumes "mode config = TwoD" and "0 < resolution config"
    and "0 \<le> py div int (resolution config)" "py div int (resolution config) < int (length (gridRef s))"
    and "0 \<le> px div int (resolution config)"
    and "px div int (resolution config) < int (length (gridRef s ! nat (py div int (resolution config))))"
  shows "handleCanvasInteraction config px py s =
     s\<lparr>gridRef := (gridRef s)[nat (py div int (resolution config)) :=
           (gridRef s ! nat (py div int (resolution config)))[nat (px div int (resolution config)) :=
              (if 0 < gridRef s ! nat (py div int (resolution config)) ! nat (px div int (resolution config))
               then 0 else 1)]],
       activePreset := None\<rparr>"
  using assms by (simp add: handleCanvasInteraction_def pixel_cell_def js_index_def Let_def)

lemma toggle_miss:
  assumes "\<not> (0 < resolution config \<and>
      0 \<le> py div int (resolution config) \<and> py div int (resolution config) < int (length (gridRef s)) \<and>
      0 \<le> px div int (resolution config) \<and>
      px div int (resolution config) < int (length (gridRef s ! nat (py div int (resolution config)))))"
  shows "handleCanvasInteraction config px py s = s"
  using assms by (auto simp: handleCanvasInteraction_def pixel_cell_def js_index_def Let_def)

text \<open>
  Claim C8. In 1D mode \<^verbatim>\<open>handleCanvasInteraction\<close> changes nothing, whatever the position. In
  2D mode the pixel offsets are mapped to the cell \<open>(py div res, px div res)\<close>; when that
  cell exists it is flipped (an age above \<open>0\<close> becomes \<open>0\<close>, age \<open>0\<close> becomes \<open>1\<close>), and for
  every position outside the grid the whole state is returned unchanged. The function
  has no failing path.
\<close>

theorem toggle_cell:
  "(mode config = OneD \<longrightarrow> handleCanvasInteraction config px py s = s) \<and>
   (mode config = TwoD \<longrightarrow>
      (let res = resolution config; y = py div int res; x = px div int res; grid = gridRef s
       in if 0 < res \<and> 0 \<le> y \<and> y < int (length grid) \<and> 0 \<le> x \<and> x < int (length (grid ! nat y))
          then gridRef (handleCanvasInteraction config px py s) =
                 grid[nat y := (grid ! nat y)[nat x := (if 0 < grid ! nat y ! nat x then 0 else 1)]] \<and>
               gridRef (handleCanvasInteraction config px py s) ! nat y ! nat x =
                 (if 0 < grid ! nat y ! nat x then 0 else 1)
          else handleCanvasInteraction config px py s = s))"
proof (intro conjI impI)
  assume "mode config = OneD"
  then show "handleCanvasInteraction config px py s = s" by (rule toggle_1D)
next
  assume m: "mode config = TwoD"
  let ?res = "resolution config"
  let ?y = "py div int ?res" and ?x = "px div int ?res"
  show "let res = resolution config; y = py div int res; x = px div int res; grid = gridRef s
       in if 0 < res \<and> 0 \<le> y \<and> y < int (length grid) \<and> 0 \<le> x \<and> x < int (length (grid ! nat y))
          then gridRef (handleCanvasInteraction config px py s) =
                 grid[nat y := (grid ! nat y)[nat x := (if 0 < grid ! nat y ! nat x then 0 else 1)]] \<and>
               gridRef (handleCanvasInteraction config px py s) ! nat y ! nat x =
                 (if 0 < grid ! nat y ! nat x then 0 else 1)
          else handleCanvasInteraction config px py s = s"
  proof (cases "0 < ?res \<and> 0 \<le> ?y \<and> ?y < int (length (gridRef s)) \<and> 0 \<le> ?x \<and>
      ?x < int (length (gridRef s ! nat ?y))")
    case True
    then have "handleCanvasInteraction config px py s =
       s\<lparr>gridRef := (gridRef s)[nat ?y := (gridRef s ! nat ?y)[nat ?x :=
              (if 0 < gridRef s ! nat ?y ! nat ?x then 0 else 1)]],
         activePreset := None\<rparr>"
      using toggle_hit[OF m] by blast
    moreover have "nat ?y < length (gridRef s)" "nat ?x < length (gridRef s ! nat ?y)"
      using True by auto
    ultimately show ?thesis using True by (simp add: Let_def)
  next
    case False
    have "handleCanvasInteraction config px py s = s" by (rule toggle_miss[OF False])
    then show ?thesis unfolding Let_def by (subst if_not_P[OF False])
  qed
qed

text \<open>
  The statement on the blinker at resolution \<open>8\<close>: no effect in 1D mode, the middle cell
  killed, the dead cell at the end of the row revived, and two positions outside the grid.
\<close>

theorem toggle_cell_witness:
  "mode (defaultConfig\<lparr>mode := OneD\<rparr>) = OneD \<and> mode defaultConfig = TwoD \<and>
   handleCanvasInteraction (defaultConfig\<lparr>mode := OneD\<rparr>) 19 18 blinker = blinker \<and>
   gridRef (handleCanvasInteraction defaultConfig 19 18 blinker) =
     [[0, 0, 0, 0, 0], [0, 0, 0, 0, 0], [0, 1, 0, 1, 0], [0, 0, 0, 0, 0], [0, 0, 0, 0, 0]] \<and>
   gridRef (handleCanvasInteraction defaultConfig 35 18 blinker) =
     [[0, 0, 0, 0, 0], [0, 0, 0, 0, 0], [0, 1, 1, 1, 1], [0, 0, 0, 0, 0], [0, 0, 0, 0, 0]] \<and>
   handleCanvasInteraction defaultConfig 40 18 blinker = blinker \<and>
   handleCanvasInteraction defaultConfig (- 1) 18 blinker = blinker"
proof -
  have m: "mode (defaultConfig\<lparr>mode := OneD\<rparr>) = OneD" "mode defaultConfig = TwoD"
    by (simp_all add: defaultConfig_def)
  have r: "resolution defaultConfig = 8" by (simp add: defaultConfig_def)
  have g: "gridRef blinker =
     [[0, 0, 0, 0, 0], [0, 0, 0, 0, 0], [0, 1, 1, 1, 0], [0, 0, 0, 0, 0], [0, 0, 0, 0, 0]]"
    by (simp add: blinker_def)
  have a: "handleCanvasInteraction (defaultConfig\<lparr>mode := OneD\<rparr>) 19 18 blinker = blinker"
    using toggle_cell[of "defaultConfig\<lparr>mode := OneD\<rparr>" 19 18 blinker] m by simp
  have b: "gridRef (handleCanvasInteraction defaultConfig 19 18 blinker) =
     [[0, 0, 0, 0, 0], [0, 0, 0, 0, 0], [0, 1, 0, 1, 0], [0, 0, 0, 0, 0], [0, 0, 0, 0, 0]]"
    using toggle_cell[of defaultConfig 19 18 blinker] m by (simp add: r g Let_def)
  have c: "gridRef (handleCanvasInteraction defaultConfig 35 18 blinker) =
     [[0, 0, 0, 0, 0], [0, 0, 0, 0, 0], [0, 1, 1, 1, 1], [0, 0, 0, 0, 0], [0, 0, 0, 0, 0]]"
    using toggle_cell[of defaultConfig 35 18 blinker] m by (simp add: r g Let_def)
  have d: "handleCanvasInteraction defaultConfig 40 18 blinker = blinker"
    using toggle_cell[of defaultConfig 40 18 blinker] m by (simp add: r g Let_def)
  have e: "handleCanvasInteraction defaultConfig (- 1) 18 blinker = blinker"
    using toggle_cell[of defaultConfig "- 1" 18 blinker] m by (simp add: r g Let_def)
  show ?thesis using m a b c d e by blast
qed

text \<open>
  Claim C10. A pointer interaction leaves the history, the generation counter and the
  cycle hue alone, keeps the shape of the grid, and changes no cell other than the one
  addressed, \<open>(py div res, px div res)\<close>. This holds for every position and mode, so in
  particular for every in-bounds position in 2D mode.
\<close>

theorem toggle_frame:
  "historyRef (handleCanvasInteraction config px py s) = historyRef s \<and>
   generation (handleCanvasInteraction config px py s) = generation s \<and>
   cycleHueRef (handleCanvasInteraction config px py s) = cycleHueRef s \<and>
   length (gridRef (handleCanvasInteraction config px py s)) = length (gridRef s) \<and>
   (\<forall>y'<length (gridRef s).
      length (gridRef (handleCanvasInteraction config px py s) ! y') = length (gridRef s ! y') \<and>
      (\<forall>x'<length (gridRef s ! y').
         int y' \<noteq> py div int (resolution config) \<or> int x' \<noteq> px div int (resolution config) \<longrightarrow>
         gridRef (handleCanvasInteraction config px py s) ! y' ! x' = gridRef s ! y' ! x'))"
proof (cases "mode config = TwoD \<and> 0 < resolution config \<and>
      0 \<le> py div int (resolution config) \<and> py div int (resolution config) < int (length (gridRef s)) \<and>
      0 \<le> px div int (resolution config) \<and>
      px div int (resolution config) < int (length (gridRef s ! nat (py div int (resolution config))))")
  case True
  obtain yn xn where yn: "py div int (resolution config) = int yn"
    and xn: "px div int (resolution config) = int xn"
    using True by (metis nonneg_int_cases)
  have h: "handleCanvasInteraction config px py s =
     s\<lparr>gridRef := (gridRef s)[yn := (gridRef s ! yn)[xn := (if 0 < gridRef s ! yn ! xn then 0 else 1)]],
       activePreset := None\<rparr>"
    using toggle_hit[of config py s px] True by (simp add: yn xn)
  have cell: "(gridRef s)[yn := (gridRef s ! yn)[xn := v]] ! y' ! x' = gridRef s ! y' ! x'"
    if "y' < length (gridRef s)" "y' \<noteq> yn \<or> x' \<noteq> xn" for y' x' v
    using that by (cases "y' = yn") simp_all
  have len: "length ((gridRef s)[yn := (gridRef s ! yn)[xn := v]] ! y') = length (gridRef s ! y')"
    if "y' < length (gridRef s)" for y' v
    using that by (cases "y' = yn") simp_all
  show ?thesis unfolding yn xn h
    by (simp add: cell len)
next
  case False
  have "handleCanvasInteraction config px py s = s"
  proof (cases "mode config")
    case OneD
    then show ?thesis by (rule toggle_1D)
  next
    case TwoD
    then show ?thesis using False by (intro toggle_miss) auto
  qed
  then show ?thesis by simp
qed

text \<open>
  The statement on the blinker: toggling the middle cell leaves its neighbours to the
  right and below, the history and the counter as they were.
\<close>

theorem toggle_frame_witness:
  "mode defaultConfig = TwoD \<and> 0 < resolution defaultConfig \<and>
   (19::int) div int (resolution defaultConfig) = 2 \<and> (18::int) div int (resolution defaultConfig) = 2 \<and>
   historyRef (handleCanvasInteraction defaultConfig 19 18 blinker) = historyRef blinker \<and>
   generation (handleCanvasInteraction defaultConfig 19 18 blinker) = generation blinker \<and>
   gridRef (handleCanvasInteraction defaultConfig 19 18 blinker) ! 2 ! 3 = gridRef blinker ! 2 ! 3 \<and>
   gridRef (handleCanvasInteraction defaultConfig 19 18 blinker) ! 3 ! 2 = gridRef blinker ! 3 ! 2"
proof -
  have r: "resolution defaultConfig = 8" "mode defaultConfig = TwoD" by (simp_all add: defaultConfig_def)
  have l: "length (gridRef blinker) = 5" "length (gridRef blinker ! 2) = 5" "length (gridRef blinker ! 3) = 5"
    by (simp_all add: blinker_def)
  note t = toggle_frame[of defaultConfig 19 18 blinker]
  have a: "historyRef (handleCanvasInteraction defaultConfig 19 18 blinker) = historyRef blinker"
    "generation (handleCanvasInteraction defaultConfig 19 18 blinker) = generation blinker"
    using t by simp_all
  have cells: "\<forall>y'<5. \<forall>x'<length (gridRef blinker ! y').
         int y' \<noteq> 2 \<or> int x' \<noteq> 2 \<longrightarrow>
         gridRef (handleCanvasInteraction defaultConfig 19 18 blinker) ! y' ! x' = gridRef blinker ! y' ! x'"
    using t by (simp add: r l)
  have b: "gridRef (handleCanvasInteraction defaultConfig 19 18 blinker) ! 2 ! 3 = gridRef blinker ! 2 ! 3"
    using cells[rule_format, of 2 3] by (simp add: l)
  have c: "gridRef (handleCanvasInteraction defaultConfig 19 18 blinker) ! 3 ! 2 = gridRef blinker ! 3 ! 2"
    using cells[rule_format, of 3 2] by (simp add: l)
  show ?thesis using a b c by (simp add: r)
qed

section \<open>Ages stay between 0 and 100\<close>

lemma mapE_Inr_D:
  "mapE f xs = Inr ys \<Longrightarrow> list_all2 (\<lambda>x y. f x = Inr y) xs ys"
  by (induction xs arbitrary: ys) (auto split: sum.splits)

lemma array_from_elems:
  assumes "array_from q f = Inr ys" and "y \<in> set ys"
  shows "\<exists>i. f i = Inr y"
proof (cases q)
  case (Fin n)
  then have "mapE f [0..<n] = Inr ys" using assms(1) by (simp add: array_from_def split: if_splits)
  then have "list_all2 (\<lambda>x y. f x = Inr y) [0..<n] ys" by (rule mapE_Inr_D)
  then show ?thesis using assms(2) by (auto simp: list_all2_conv_all_nth in_set_conv_nth)
next
  case Infinity
  then show ?thesis using assms by (simp add: array_from_def)
next
  case NaN
  then show ?thesis using assms by (simp add: array_from_def)
qed

lemma initGrid_2D_range:
  assumes "initGrid TwoD res window lucky s = Inr s'" and "row \<in> set (gridRef s')" and "a \<in> set row"
  shows "a = 0 \<or> a = 1"
proof -
  let ?cols = "ceil_quot (innerWidth window) res"
  have "array_from (ceil_quot (innerHeight window) res)
          (\<lambda>y. array_from ?cols (\<lambda>x. Inr (if lucky y x then 1 else 0))) = Inr (gridRef s')"
    using assms(1) by (auto simp: initGrid_def Let_def split: sum.splits)
  then obtain y where "array_from ?cols (\<lambda>x. Inr (if lucky y x then 1 else 0)) = Inr row"
    using array_from_elems assms(2) by fastforce
  then obtain x where "(Inr (if lucky y x then 1 else 0) :: error + int) = Inr a"
    using array_from_elems assms(3) by fastforce
  then show ?thesis by (auto split: if_splits)
qed

lemma toggle_range:
  assumes "\<forall>row\<in>set (gridRef s). \<forall>a\<in>set row. 0 \<le> a \<and> a \<le> 100"
  shows "\<forall>row\<in>set (gridRef (handleCanvasInteraction config px py s)). \<forall>a\<in>set row. 0 \<le> a \<and> a \<le> 100"
proof (cases "mode config = TwoD \<and> 0 < resolution config \<and>
      0 \<le> py div int (resolution config) \<and> py div int (resolution config) < int (length (gridRef s)) \<and>
      0 \<le> px div int (resolution config) \<and>
      px div int (resolution config) < int (length (gridRef s ! nat (py div int (resolution config))))")
  case True
  obtain yn xn where yn: "py div int (resolution config) = int yn"
    and xn: "px div int (resolution config) = int xn"
    using True by (metis nonneg_int_cases)
  define v :: int where "v = (if 0 < gridRef s ! yn ! xn then 0 else 1)"
  have v: "v = 0 \<or> v = 1" by (simp add: v_def)
  have h: "gridRef (handleCanvasInteraction config px py s) =
      (gridRef s)[yn := (gridRef s ! yn)[xn := v]]"
    using toggle_hit[of config py s px] True by (simp add: yn xn v_def)
  have y: "yn < length (gridRef s)" using True yn by simp
  have old: "\<forall>a\<in>set (gridRef s ! yn). 0 \<le> a \<and> a \<le> 100" using assms nth_mem[OF y] by blast
  have new: "\<forall>a\<in>set ((gridRef s ! yn)[xn := v]). 0 \<le> a \<and> a \<le> 100"
  proof
    fix a assume "a \<in> set ((gridRef s ! yn)[xn := v])"
    then have "a \<in> insert v (set (gridRef s ! yn))"
      by (rule subsetD[OF set_update_subset_insert])
    then have "a = v \<or> a \<in> set (gridRef s ! yn)" by simp
    then show "0 \<le> a \<and> a \<le> 100" using old v by fastforce
  qed
  show ?thesis
  proof
    fix row assume "row \<in> set (gridRef (handleCanvasInteraction config px py s))"
    then have "row \<in> insert ((gridRef s ! yn)[xn := v]) (set (gridRef s))"
      unfolding h by (rule subsetD[OF set_update_subset_insert])
    then have "row = (gridRef s ! yn)[xn := v] \<or> row \<in> set (gridRef s)" by simp
    then show "\<forall>a\<in>set row. 0 \<le> a \<and> a \<le> 100" using new assms by blast
  qed
next
  case False
  have "handleCanvasInteraction config px py s = s"
  proof (cases "mode config")
    case OneD
    then show ?thesis by (rule toggle_1D)
  next
    case TwoD
    then show ?thesis using False by (intro toggle_miss) auto
  qed
  then show ?thesis using assms by simp
qed

lemma reachable2D_range:
  "reachable2D s \<Longrightarrow> \<forall>row\<in>set (gridRef s). \<forall>a\<in>set row. 0 \<le> a \<and> a \<le> 100"
proof (induction rule: reachable2D.induct)
  case (init res window lucky s s')
  then show ?case using initGrid_2D_range by fastforce
next
  case (step s config window s')
  then show ?case using step_2D_range by blast
next
  case (toggle s config px py)
  then show ?case using toggle_range by blast
qed

lemma steps_alive_age:
  assumes m: "mode config = TwoD" and y: "y < length (gridRef s)" and x: "x < length (gridRef s ! y)"
    and le: "gridRef s ! y ! x \<le> 100"
  shows "(\<forall>k\<le>n. \<exists>sk. steps config window k s = Inr sk \<and> 0 < gridRef sk ! y ! x) \<Longrightarrow>
     \<exists>sn. steps config window n s = Inr sn \<and>
        gridRef sn ! y ! x = min (gridRef s ! y ! x + int n) 100"
proof (induction n)
  case 0
  then show ?case using le by auto
next
  case (Suc n)
  then have "\<forall>k\<le>n. \<exists>sk. steps config window k s = Inr sk \<and> 0 < gridRef sk ! y ! x" by auto
  then obtain sn where sn: "steps config window n s = Inr sn"
    "gridRef sn ! y ! x = min (gridRef s ! y ! x + int n) 100"
    using Suc.IH by blast
  have alive_n: "0 < gridRef sn ! y ! x" using Suc.prems[rule_format, of n] sn(1) by auto
  obtain s' where s': "steps config window (Suc n) s = Inr s'" "0 < gridRef s' ! y ! x"
    using Suc.prems[rule_format, of "Suc n"] by auto
  then have st: "step config window sn = Inr s'" using sn(1) by simp
  have shape: "y < length (gridRef sn)" "x < length (gridRef sn ! y)"
    using steps_2D_shape[OF m sn(1)] y x by auto
  obtain c where "gridRef s' ! y ! x = nextAge config (gridRef sn ! y ! x) c"
    using step_2D_cell[OF m st shape] by blast
  then have "gridRef s' ! y ! x = min (gridRef sn ! y ! x + 1) 100"
    using alive_n s'(2) by (auto simp: nextAge_def split: if_splits)
  then have "gridRef s' ! y ! x = min (gridRef s ! y ! x + int (Suc n)) 100"
    using sn(2) by auto
  then show ?case using s'(1) by blast
qed

lemma block_nextGrid:
  "0 < a \<Longrightarrow> nextGrid defaultConfig (block a) 4 4 = Inr (block (min (a + 1) 100))"
  by (simp add: nextGrid_def block_def countNeighbors_def visit_def cell_alive_def js_index_def
      rem_index_def js_rem_def nextAge_def defaultConfig_def)

lemma block_step:
  assumes "0 < a" "gridRef s = block a"
  shows "\<exists>s'. step defaultConfig window s = Inr s' \<and> gridRef s' = block (min (a + 1) 100)"
proof -
  have g: "gridRef s = [0, 0, 0, 0] # [[0, a, a, 0], [0, a, a, 0], [0, 0, 0, 0]]"
    using assms(2) by (simp add: block_def)
  have n: "nextGrid defaultConfig (gridRef s) (int (length (gridRef s))) (int (length [0, 0, 0, 0::int])) =
      Inr (block (min (a + 1) 100))"
    using block_nextGrid[OF assms(1)] by (simp add: assms(2) block_def)
  have m: "mode defaultConfig = TwoD" by (simp add: defaultConfig_def)
  have "step defaultConfig window s = Inr (advance (s\<lparr>gridRef := block (min (a + 1) 100)\<rparr>))"
    unfolding step_def using m n by (simp only: g list.case sum.case simp_thms if_True)
  then show ?thesis by (simp add: advance_def)
qed

lemma block_steps:
  assumes "gridRef s = block 1"
  shows "\<exists>sk. steps defaultConfig window k s = Inr sk \<and> gridRef sk = block (min (1 + int k) 100)"
proof (induction k)
  case 0
  then show ?case using assms by simp
next
  case (Suc k)
  then obtain sk where sk: "steps defaultConfig window k s = Inr sk"
    "gridRef sk = block (min (1 + int k) 100)" by blast
  have "0 < min (1 + int k) 100" by simp
  from block_step[OF this sk(2), of window]
  obtain s' where "step defaultConfig window sk = Inr s'"
    "gridRef s' = block (min (min (1 + int k) 100 + 1) 100)" by blast
  moreover have "min (min (1 + int k) 100 + 1) 100 = min (1 + int (Suc k)) 100" by auto
  ultimately show ?case using sk(1) by simp
qed

text \<open>
  Claim C7. In every state reached from an initialisation by steps and pointer
  interactions in 2D mode, every age is between \<open>0\<close> and \<open>100\<close>; a step in 2D mode always
  succeeds. A cell that is alive in each of the generations \<open>0, \<dots>, n\<close> has age
  \<open>min (age + n) 100\<close> in generation \<open>n\<close>, which is exactly \<open>100\<close> from \<open>n = 99\<close> on. A cell
  that was alive before a step and is not alive after it has age \<open>0\<close>.
\<close>

theorem age_bounds:
  "(reachable2D s \<longrightarrow> (\<forall>row\<in>set (gridRef s). \<forall>a\<in>set row. 0 \<le> a \<and> a \<le> 100)) \<and>
   (mode config = TwoD \<longrightarrow> (\<exists>s'. step config window s = Inr s')) \<and>
   (reachable2D s \<and> mode config = TwoD \<and> y < length (gridRef s) \<and> x < length (gridRef s ! y) \<and>
    (\<forall>k\<le>n. \<exists>sk. steps config window k s = Inr sk \<and> 0 < gridRef sk ! y ! x) \<longrightarrow>
      (\<exists>sn. steps config window n s = Inr sn \<and>
         gridRef sn ! y ! x = min (gridRef s ! y ! x + int n) 100 \<and>
         (99 \<le> n \<longrightarrow> gridRef sn ! y ! x = 100))) \<and>
   (mode config = TwoD \<and> step config window s = Inr s' \<and>
    y < length (gridRef s) \<and> x < length (gridRef s ! y) \<and>
    0 < gridRef s ! y ! x \<and> \<not> 0 < gridRef s' ! y ! x \<longrightarrow>
      gridRef s' ! y ! x = 0)"
proof (intro conjI impI)
  assume "reachable2D s"
  then show "\<forall>row\<in>set (gridRef s). \<forall>a\<in>set row. 0 \<le> a \<and> a \<le> 100"
    by (rule reachable2D_range)
next
  assume "mode config = TwoD"
  then show "\<exists>s'. step config window s = Inr s'" by (rule step_2D_total)
next
  assume a: "reachable2D s \<and> mode config = TwoD \<and> y < length (gridRef s) \<and> x < length (gridRef s ! y) \<and>
    (\<forall>k\<le>n. \<exists>sk. steps config window k s = Inr sk \<and> 0 < gridRef sk ! y ! x)"
  then have y: "y < length (gridRef s)" and x: "x < length (gridRef s ! y)"
    and m: "mode config = TwoD"
    and alive: "\<forall>k\<le>n. \<exists>sk. steps config window k s = Inr sk \<and> 0 < gridRef sk ! y ! x"
    by blast+
  have "gridRef s ! y \<in> set (gridRef s)" using y by simp
  moreover have "gridRef s ! y ! x \<in> set (gridRef s ! y)" using x by simp
  ultimately have le: "gridRef s ! y ! x \<le> 100" using a reachable2D_range by blast
  have pos: "0 < gridRef s ! y ! x" using alive[rule_format, of 0] by simp
  obtain sn where sn: "steps config window n s = Inr sn"
    "gridRef sn ! y ! x = min (gridRef s ! y ! x + int n) 100"
    using steps_alive_age[OF m y x le alive] by blast
  have "99 \<le> n \<longrightarrow> gridRef sn ! y ! x = 100" using sn(2) pos by auto
  then show "\<exists>sn. steps config window n s = Inr sn \<and>
         gridRef sn ! y ! x = min (gridRef s ! y ! x + int n) 100 \<and>
         (99 \<le> n \<longrightarrow> gridRef sn ! y ! x = 100)"
    using sn by blast
next
  assume a: "mode config = TwoD \<and> step config window s = Inr s' \<and>
    y < length (gridRef s) \<and> x < length (gridRef s ! y) \<and>
    0 < gridRef s ! y ! x \<and> \<not> 0 < gridRef s' ! y ! x"
  then obtain c where "gridRef s' ! y ! x = nextAge config (gridRef s ! y ! x) c"
    using step_2D_cell[of config window s s' y x] by blast
  then show "gridRef s' ! y ! x = 0" using a by (auto simp: nextAge_def split: if_splits)
qed

text \<open>
  The statement on the block under the rules of the Game of Life: the block with one
  cell toggled off is reachable and within the bounds, and a cell of the untouched block
  survives \<open>100\<close> generations and then has age \<open>100\<close>.
\<close>

theorem age_bounds_witness:
  "reachable2D (handleCanvasInteraction defaultConfig 9 10 (initialState\<lparr>gridRef := block 1\<rparr>)) \<and>
   gridRef (handleCanvasInteraction defaultConfig 9 10 (initialState\<lparr>gridRef := block 1\<rparr>)) =
     [[0, 0, 0, 0], [0, 0, 1, 0], [0, 1, 1, 0], [0, 0, 0, 0]] \<and>
   list_all (list_all (\<lambda>a. 0 \<le> a \<and> a \<le> 100))
     (gridRef (handleCanvasInteraction defaultConfig 9 10 (initialState\<lparr>gridRef := block 1\<rparr>))) \<and>
   mode defaultConfig = TwoD \<and>
   (\<exists>s100. steps defaultConfig \<lparr>innerWidth = 32, innerHeight = 32\<rparr> 100 (initialState\<lparr>gridRef := block 1\<rparr>) = Inr s100 \<and>
      gridRef s100 ! 1 ! 1 = 100) \<and>
   (\<exists>s'. step defaultConfig \<lparr>innerWidth = 32, innerHeight = 32\<rparr>
        (handleCanvasInteraction defaultConfig 9 10 (initialState\<lparr>gridRef := block 1\<rparr>)) = Inr s')"
proof -
  let ?w = "\<lparr>innerWidth = 32, innerHeight = 32\<rparr>"
  let ?s = "initialState\<lparr>gridRef := block 1\<rparr>"
  let ?t = "handleCanvasInteraction defaultConfig 9 10 ?s"
  have m: "mode defaultConfig = TwoD" by (simp add: defaultConfig_def)
  have "initGrid TwoD 8 ?w block_luck initialState = Inr ?s" by code_simp
  then have rs: "reachable2D ?s" by (rule reachable2D.init)
  then have rt: "reachable2D ?t" using m by (rule reachable2D.toggle)
  have gt: "gridRef ?t = [[0, 0, 0, 0], [0, 0, 1, 0], [0, 1, 1, 0], [0, 0, 0, 0]]" by code_simp
  have "\<forall>row\<in>set (gridRef ?t). \<forall>a\<in>set row. 0 \<le> a \<and> a \<le> 100"
    using age_bounds[of ?t] rt by blast
  then have range: "list_all (list_all (\<lambda>a. 0 \<le> a \<and> a \<le> 100)) (gridRef ?t)"
    by (simp add: list_all_iff)
  have total: "\<exists>s'. step defaultConfig ?w ?t = Inr s'"
    using age_bounds[of ?t defaultConfig ?w] m by blast
  have g: "gridRef ?s = block 1" by simp
  have alive: "\<forall>k\<le>100. \<exists>sk. steps defaultConfig ?w k ?s = Inr sk \<and> 0 < gridRef sk ! 1 ! 1"
  proof (intro allI impI)
    fix k :: nat
    obtain sk where "steps defaultConfig ?w k ?s = Inr sk" "gridRef sk = block (min (1 + int k) 100)"
      using block_steps[OF g, of ?w k] by blast
    then show "\<exists>sk. steps defaultConfig ?w k ?s = Inr sk \<and> 0 < gridRef sk ! 1 ! 1"
      by (auto simp: block_def)
  qed
  have l: "(1::nat) < length (gridRef ?s)" "(1::nat) < length (gridRef ?s ! 1)"
    by (simp_all add: block_def)
  have "\<exists>sn. steps defaultConfig ?w 100 ?s = Inr sn \<and>
         gridRef sn ! 1 ! 1 = min (gridRef ?s ! 1 ! 1 + int 100) 100 \<and>
         (99 \<le> (100::nat) \<longrightarrow> gridRef sn ! 1 ! 1 = 100)"
    using age_bounds[of ?s defaultConfig ?w 1 1 100] rs m l alive by blast
  then have clamp: "\<exists>s100. steps defaultConfig ?w 100 ?s = Inr s100 \<and> gridRef s100 ! 1 ! 1 = 100"
    by auto
  show ?thesis using rt gt range m clamp total by blast
qed

section \<open>The hue in Density mode\<close>

text \<open>
  Claim C9. In Density mode with base hue \<open>0\<close> and one live neighbour the hue is the
  remainder \<^verbatim>\<open>(0 - 25) % 360\<close>, which is \<open>-25\<close> and not the value \<open>335\<close> of
  \<open>(0 - 25) mod 360\<close> in \<open>[0, 360)\<close>; saturation, lightness and alpha are as stated.
\<close>

theorem density_hue_negative:
  "cellHsl (defaultConfig\<lparr>hue := 0, colorMode := Density\<rparr>) initialState 1 1 = (- 25, 80, 45) \<and>
   getCellColor (defaultConfig\<lparr>hue := 0, colorMode := Density\<rparr>) initialState 1 1 =
     ''hsla(-25, 80%, 45%, 0.9)'' \<and>
   (0 - 1 * 25) mod 360 = (335::int)"
  by code_simp

end
